theory Spec2Isabelle
  imports
    Main
    "HOL-Library.Sublist"
    "HOL-Library.Multiset"
    "HOL-Library.Char_ord"
    "HOL-Library.List_Lexorder"
    "HOL-Library.Product_Lexorder"
begin

section \<open>The keyword table engine of the item-sourcing page\<close>

text \<open>
  This theory embeds the state and effect logic of
  \<^verbatim>\<open>src/app/item-sourcing/page.tsx\<close> (component \<^verbatim>\<open>ItemSourcingPage\<close>):
  the inclusion-set toggle handlers, the filter-and-sort effect, the sort handler,
  the infinite-scroll effect and the simulated dataset loads.

  JavaScript strings are modelled as \<^typ>\<open>string\<close>, read as the UTF-8 bytes of the text;
  numbers that the page only ever uses as integers are \<^typ>\<open>int\<close> or \<^typ>\<open>nat\<close>.
\<close>

subsection \<open>Data model\<close>

text \<open>
  The fields \<^verbatim>\<open>competitionLevel\<close> and \<^verbatim>\<open>searchType\<close> of the interface \<^verbatim>\<open>Keyword\<close>
  (lines 109-118) are closed unions of Korean string literals: low, medium and high
  competition; shopping and informational search. At run time they are strings: the
  filters test membership of the string and the sort compares the strings, so each
  constructor comes with its text, given as its UTF-8 bytes.
\<close>

datatype CompetitionLevel = Low | Medium | High

datatype SearchType = Shopping | Informational

definition competitionLevelText :: "CompetitionLevel \<Rightarrow> string" where
  "competitionLevelText c =
     (case c of
        Low \<Rightarrow> [CHR 0xEB, CHR 0x82, CHR 0xAE, CHR 0xEC, CHR 0x9D, CHR 0x8C]
      | Medium \<Rightarrow> [CHR 0xEC, CHR 0xA4, CHR 0x91, CHR 0xEA, CHR 0xB0, CHR 0x84]
      | High \<Rightarrow> [CHR 0xEB, CHR 0x86, CHR 0x92, CHR 0xEC, CHR 0x9D, CHR 0x8C])"

definition searchTypeText :: "SearchType \<Rightarrow> string" where
  "searchTypeText t =
     (case t of
        Shopping \<Rightarrow>
          [CHR 0xEC, CHR 0x87, CHR 0xBC, CHR 0xED, CHR 0x95, CHR 0x91, CHR 0xEC, CHR 0x84, CHR 0xB1]
      | Informational \<Rightarrow>
          [CHR 0xEC, CHR 0xA0, CHR 0x95, CHR 0xEB, CHR 0xB3, CHR 0xB4, CHR 0xEC, CHR 0x84, CHR 0xB1])"

text \<open>
  Interface \<^verbatim>\<open>Keyword\<close>; the field \<^verbatim>\<open>id\<close> is named \<open>keyword_id\<close> here. The counts
  are integers and the trend values are natural numbers, as \<^verbatim>\<open>generateMockKeywords\<close>
  produces them with \<^verbatim>\<open>Math.floor\<close>.
\<close>

record Keyword =
  keyword_id :: string
  name :: string
  searchVolume :: int
  productCount :: int
  competitionLevel :: CompetitionLevel
  trendData :: "nat list"
  isBrand :: bool
  searchType :: SearchType

datatype Direction = Asc | Desc

text \<open>\<^verbatim>\<open>{ key: string; direction: "asc" | "desc" }\<close> (line 531).\<close>

record SortConfig =
  key :: string
  direction :: Direction

subsection \<open>Inclusion-set toggle handlers\<close>

text \<open>
  \<^verbatim>\<open>handleBrandFilterChange\<close> (lines 551-564). The handler reads the current array and
  writes the new one; here it takes the current array and returns the new one.
\<close>

definition handleBrandFilterChange :: "string \<Rightarrow> string list \<Rightarrow> string list" where
  "handleBrandFilterChange v brandFilter =
     (if v = ''all'' then [''all'']
      else
        let newFilter =
              (if v \<in> set brandFilter
               then filter (\<lambda>item. item \<noteq> v) brandFilter
               else filter (\<lambda>item. item \<noteq> ''all'') brandFilter @ [v])
        in if length newFilter \<noteq> 0 then newFilter else [''all''])"

text \<open>\<^verbatim>\<open>handleSearchTypeFilterChange\<close> (lines 618-631).\<close>

definition handleSearchTypeFilterChange :: "string \<Rightarrow> string list \<Rightarrow> string list" where
  "handleSearchTypeFilterChange v searchTypeFilter =
     (if v = ''all'' then [''all'']
      else
        let newFilter =
              (if v \<in> set searchTypeFilter
               then filter (\<lambda>item. item \<noteq> v) searchTypeFilter
               else filter (\<lambda>item. item \<noteq> ''all'') searchTypeFilter @ [v])
        in if length newFilter \<noteq> 0 then newFilter else [''all''])"

text \<open>\<^verbatim>\<open>handleCompetitionFilterChange\<close> (lines 640-653).\<close>

definition handleCompetitionFilterChange :: "string \<Rightarrow> string list \<Rightarrow> string list" where
  "handleCompetitionFilterChange v competitionFilter =
     (if v = ''all'' then [''all'']
      else
        let newFilter =
              (if v \<in> set competitionFilter
               then filter (\<lambda>item. item \<noteq> v) competitionFilter
               else filter (\<lambda>item. item \<noteq> ''all'') competitionFilter @ [v])
        in if length newFilter \<noteq> 0 then newFilter else [''all''])"

text \<open>\<^verbatim>\<open>handleAgeFilterChange\<close> (lines 664-669): a plain toggle, no sentinel.\<close>

definition handleAgeFilterChange :: "string \<Rightarrow> string list \<Rightarrow> string list" where
  "handleAgeFilterChange v ageFilter =
     (if v \<in> set ageFilter then filter (\<lambda>item. item \<noteq> v) ageFilter else ageFilter @ [v])"

text \<open>
  The inclusion set after a sequence of toggles, starting from the initial value
  \<^verbatim>\<open>["all"]\<close> of the state variable (lines 504-506).
\<close>

definition toggled :: "(string \<Rightarrow> string list \<Rightarrow> string list) \<Rightarrow> string list \<Rightarrow> string list" where
  "toggled h vs = foldl (\<lambda>s v. h v s) [''all''] vs"

text \<open>The all-sentinel invariant: not empty, and \<^verbatim>\<open>"all"\<close> only ever alone.\<close>

definition allSentinel :: "string list \<Rightarrow> bool" where
  "allSentinel s = (s \<noteq> [] \<and> (s = [''all''] \<or> ''all'' \<notin> set s))"

subsection \<open>JavaScript library functions used by the page\<close>

text \<open>
  \<^verbatim>\<open>String.prototype.toLowerCase\<close>, on the letters A to Z; every other byte is left as
  it is (so is every Korean syllable of the generated keyword names, which has no case).
\<close>

definition toLowerCaseChar :: "char \<Rightarrow> char" where
  "toLowerCaseChar c =
     (if CHR ''A'' \<le> c \<and> c \<le> CHR ''Z'' then char_of (of_char c + (32::nat)) else c)"

definition toLowerCase :: "string \<Rightarrow> string" where
  "toLowerCase s = map toLowerCaseChar s"

text \<open>\<^verbatim>\<open>s.includes(t)\<close> on strings: \<open>t\<close> occurs in \<open>s\<close> as a contiguous substring.\<close>

definition includes_str :: "string \<Rightarrow> string \<Rightarrow> bool" where
  "includes_str s t = sublist t s"

text \<open>
  White space as \<^verbatim>\<open>parseInt\<close> and \<^verbatim>\<open>trim\<close> strip it: tab, line feed, vertical tab,
  form feed, carriage return and space (the white space characters beyond ASCII are
  left out).
\<close>

definition isWhiteSpace :: "char \<Rightarrow> bool" where
  "isWhiteSpace c = (c \<in> {CHR 0x09, CHR 0x0A, CHR 0x0B, CHR 0x0C, CHR 0x0D, CHR '' ''})"

text \<open>\<^verbatim>\<open>String.prototype.trim\<close>; the page itself never calls it.\<close>

definition trim :: "string \<Rightarrow> string" where
  "trim s = rev (dropWhile isWhiteSpace (rev (dropWhile isWhiteSpace s)))"

text \<open>The value of a digit of radix up to 36, or \<open>None\<close> for any other character.\<close>

definition digitValue :: "char \<Rightarrow> nat option" where
  "digitValue c =
     (if CHR ''0'' \<le> c \<and> c \<le> CHR ''9'' then Some (of_char c - 48)
      else if CHR ''a'' \<le> c \<and> c \<le> CHR ''z'' then Some (of_char c - 87)
      else if CHR ''A'' \<le> c \<and> c \<le> CHR ''Z'' then Some (of_char c - 55)
      else None)"

definition isRadixDigit :: "nat \<Rightarrow> char \<Rightarrow> bool" where
  "isRadixDigit radix c = (case digitValue c of None \<Rightarrow> False | Some d \<Rightarrow> d < radix)"

definition digitsValue :: "nat \<Rightarrow> string \<Rightarrow> int" where
  "digitsValue radix ds = foldl (\<lambda>acc c. acc * int radix + int (the (digitValue c))) 0 ds"

text \<open>
  \<^verbatim>\<open>Number.parseInt(s)\<close> with no radix argument: leading white space is skipped, then
  an optional sign, then an optional \<^verbatim>\<open>0x\<close> or \<^verbatim>\<open>0X\<close> that selects radix 16; the
  longest run of digits is read and the rest of the string is ignored. \<open>None\<close> is
  \<^verbatim>\<open>NaN\<close>, returned when there is no digit. The value is the exact integer (the rounding
  of values beyond \<open>2 ^ 53\<close> is left out).
\<close>

definition parseInt :: "string \<Rightarrow> int option" where
  "parseInt inputString =
     (let S = dropWhile isWhiteSpace inputString;
          sign = (if take 1 S = ''-'' then - 1 else 1 :: int);
          S = (if take 1 S = ''-'' \<or> take 1 S = ''+'' then drop 1 S else S);
          R = (if take 2 S = ''0x'' \<or> take 2 S = ''0X'' then 16 else 10 :: nat);
          S = (if take 2 S = ''0x'' \<or> take 2 S = ''0X'' then drop 2 S else S);
          Z = takeWhile (isRadixDigit R) S
      in if Z = [] then None else Some (sign * digitsValue R Z))"

text \<open>
  \<^verbatim>\<open>x >= y\<close> and \<^verbatim>\<open>x <= y\<close> where \<open>y\<close> comes from \<^verbatim>\<open>parseInt\<close>: every comparison
  with \<^verbatim>\<open>NaN\<close> is false.
\<close>

definition num_ge :: "int \<Rightarrow> int option \<Rightarrow> bool" where
  "num_ge x y = (case y of None \<Rightarrow> False | Some n \<Rightarrow> x \<ge> n)"

definition num_le :: "int \<Rightarrow> int option \<Rightarrow> bool" where
  "num_le x y = (case y of None \<Rightarrow> False | Some n \<Rightarrow> x \<le> n)"

text \<open>The values a property of a \<^verbatim>\<open>Keyword\<close> object can hold, as the sort compares them.\<close>

datatype JSValue = JNumber int | JString string | JBoolean bool | JUndefined

text \<open>\<^verbatim>\<open>Number.prototype.toString\<close> on a non-negative integer, and \<^verbatim>\<open>Array.prototype.join\<close>.\<close>

fun numberToString :: "nat \<Rightarrow> string" where
  "numberToString n =
     (if n < 10 then [''0123456789'' ! n]
      else numberToString (n div 10) @ [''0123456789'' ! (n mod 10)])"

fun join :: "string list \<Rightarrow> string" where
  "join [] = []"
| "join [x] = x"
| "join (x # y # ys) = x @ '','' @ join (y # ys)"

text \<open>
  \<^verbatim>\<open>a[sortConfig.key]\<close>: the property of a keyword object under a name given as a string.
  The objects have exactly the eight properties of the interface. An array is compared
  through its string form, so \<^verbatim>\<open>trendData\<close> is given as that string. Under any other
  name the two objects hold nothing of their own (\<^verbatim>\<open>undefined\<close>, or one and the same
  inherited value), and neither \<^verbatim>\<open><\<close> nor \<^verbatim>\<open>>\<close> holds between them.
\<close>

definition getProp :: "string \<Rightarrow> Keyword \<Rightarrow> JSValue" where
  "getProp k a =
     (if k = ''id'' then JString (keyword_id a)
      else if k = ''name'' then JString (name a)
      else if k = ''searchVolume'' then JNumber (searchVolume a)
      else if k = ''productCount'' then JNumber (productCount a)
      else if k = ''competitionLevel'' then JString (competitionLevelText (competitionLevel a))
      else if k = ''trendData'' then JString (join (map numberToString (trendData a)))
      else if k = ''isBrand'' then JBoolean (isBrand a)
      else if k = ''searchType'' then JString (searchTypeText (searchType a))
      else JUndefined)"

text \<open>
  \<^verbatim>\<open>x < y\<close> on two values read from the same property: numbers by value, strings
  lexicographically by character code (here the order of the UTF-8 bytes, which is the
  order of the code points), booleans as 0 and 1; \<^verbatim>\<open>undefined < undefined\<close> is false. The last equation also covers operands of different kinds, which the same
  property of two keyword objects never yields.
\<close>

fun js_lt :: "JSValue \<Rightarrow> JSValue \<Rightarrow> bool" where
  "js_lt (JNumber x) (JNumber y) = (x < y)"
| "js_lt (JString s) (JString t) = (s < t)"
| "js_lt (JBoolean x) (JBoolean y) = (\<not> x \<and> y)"
| "js_lt _ _ = False"

text \<open>The comparison function handed to \<^verbatim>\<open>result.sort\<close> (lines 1127-1135).\<close>

definition compareFn :: "SortConfig \<Rightarrow> Keyword \<Rightarrow> Keyword \<Rightarrow> int" where
  "compareFn cfg a b =
     (if js_lt (getProp (key cfg) a) (getProp (key cfg) b)
      then (if direction cfg = Asc then - 1 else 1)
      else if js_lt (getProp (key cfg) b) (getProp (key cfg) a)
      then (if direction cfg = Asc then 1 else - 1)
      else 0)"

text \<open>
  \<^verbatim>\<open>Array.prototype.sort(compareFn)\<close>. The language requires the sort to be stable
  (ECMAScript 2019) and leaves the algorithm open; it is modelled as the stable insertion
  sort: an element goes in front of the first later element it does not compare greater
  than.
\<close>

fun insertSorted :: "('a \<Rightarrow> 'a \<Rightarrow> int) \<Rightarrow> 'a \<Rightarrow> 'a list \<Rightarrow> 'a list" where
  "insertSorted cmp x [] = [x]"
| "insertSorted cmp x (y # ys) =
     (if cmp x y \<le> 0 then x # y # ys else y # insertSorted cmp x ys)"

definition arraySort :: "('a \<Rightarrow> 'a \<Rightarrow> int) \<Rightarrow> 'a list \<Rightarrow> 'a list" where
  "arraySort cmp xs = foldr (insertSorted cmp) xs []"

subsection \<open>Component state\<close>

text \<open>
  The \<^verbatim>\<open>useState\<close> variables of \<^verbatim>\<open>ItemSourcingPage\<close> that the engine reads or writes
  (lines 489-534; \<^verbatim>\<open>keywords\<close> is named \<open>keywords_list\<close> here), and the two kinds of
  timer the page starts with \<^verbatim>\<open>setTimeout\<close>:
  \<^item> \<open>pendingLoads\<close>: the category ids of the dataset loads whose 800 ms timer has not
    fired yet, oldest first. Every load uses the same delay, and timers of equal delay
    fire in the order they were started.
  \<^item> \<open>pendingLoadMore\<close>: the 300 ms timer of the infinite scroll, with the value of
    \<^verbatim>\<open>filteredKeywords.length\<close> that its callback closed over.
\<close>

record PageState =
  keywords_list :: "Keyword list"
  filteredKeywords :: "Keyword list"
  searchTerm :: string
  isLoading :: bool
  searchVolumeFilter :: string
  minSearchVolume :: string
  maxSearchVolume :: string
  brandFilter :: "string list"
  searchTypeFilter :: "string list"
  competitionFilter :: "string list"
  genderFilter :: string
  ageFilter :: "string list"
  bestSellingMonthFilter :: string
  searchVolumeIncreaseFilter :: string
  customSearchVolumeIncrease :: string
  visibleKeywords :: nat
  isLoadingMore :: bool
  sortConfig :: "SortConfig option"
  pendingLoads :: "string list"
  pendingLoadMore :: "nat option"

text \<open>
  The state after the first render: the initial values of the state variables, and the
  timer of the initial data loading effect (lines 1037-1050) for the default category
  \<^verbatim>\<open>"1"\<close>.
\<close>

definition initialState :: PageState where
  "initialState =
     \<lparr> keywords_list = [], filteredKeywords = [], searchTerm = [], isLoading = True,
       searchVolumeFilter = [], minSearchVolume = [], maxSearchVolume = [],
       brandFilter = [''all''], searchTypeFilter = [''all''], competitionFilter = [''all''],
       genderFilter = ''all'', ageFilter = [], bestSellingMonthFilter = [],
       searchVolumeIncreaseFilter = [], customSearchVolumeIncrease = [],
       visibleKeywords = 30, isLoadingMore = False,
       sortConfig = Some \<lparr> key = ''searchVolume'', direction = Desc \<rparr>,
       pendingLoads = [''1''], pendingLoadMore = None \<rparr>"

subsection \<open>The filter and sort effect\<close>

text \<open>
  The effect of lines 1058-1154 is one function that rewrites the local variable
  \<^verbatim>\<open>result\<close> block by block. Each block is a definition here, taking the value of
  \<^verbatim>\<open>result\<close> before the block and returning its value after it.
\<close>

text \<open>Lines 1061-1064: the search term. A string is truthy when it is not empty.\<close>

definition textStage :: "PageState \<Rightarrow> Keyword list \<Rightarrow> Keyword list" where
  "textStage s result =
     (if searchTerm s \<noteq> []
      then filter (\<lambda>keyword. includes_str (toLowerCase (name keyword)) (toLowerCase (searchTerm s))) result
      else result)"

text \<open>Lines 1066-1081: the search volume, by preset threshold or custom range.\<close>

definition volumeStage :: "PageState \<Rightarrow> Keyword list \<Rightarrow> Keyword list" where
  "volumeStage s result =
     (if searchVolumeFilter s \<noteq> [] then
        (if searchVolumeFilter s = ''custom'' then
           (let result =
                  (if minSearchVolume s \<noteq> []
                   then filter (\<lambda>keyword. num_ge (searchVolume keyword) (parseInt (minSearchVolume s))) result
                   else result);
                result =
                  (if maxSearchVolume s \<noteq> []
                   then filter (\<lambda>keyword. num_le (searchVolume keyword) (parseInt (maxSearchVolume s))) result
                   else result)
            in result)
         else
           (let threshold = parseInt (searchVolumeFilter s)
            in filter (\<lambda>keyword. num_ge (searchVolume keyword) threshold) result))
      else result)"

text \<open>Lines 1083-1093: the brand filter.\<close>

definition brandStage :: "PageState \<Rightarrow> Keyword list \<Rightarrow> Keyword list" where
  "brandStage s result =
     (if ''all'' \<notin> set (brandFilter s) then
        (let includeBrand = (''brand'' \<in> set (brandFilter s));
             includeNonBrand = (''non-brand'' \<in> set (brandFilter s))
         in if includeBrand \<and> \<not> includeNonBrand then filter (\<lambda>keyword. isBrand keyword) result
            else if \<not> includeBrand \<and> includeNonBrand then filter (\<lambda>keyword. \<not> isBrand keyword) result
            else result)
      else result)"

text \<open>Lines 1095-1098: the search type filter.\<close>

definition searchTypeStage :: "PageState \<Rightarrow> Keyword list \<Rightarrow> Keyword list" where
  "searchTypeStage s result =
     (if ''all'' \<notin> set (searchTypeFilter s)
      then filter (\<lambda>keyword. searchTypeText (searchType keyword) \<in> set (searchTypeFilter s)) result
      else result)"

text \<open>Lines 1100-1103: the competition level filter.\<close>

definition competitionStage :: "PageState \<Rightarrow> Keyword list \<Rightarrow> Keyword list" where
  "competitionStage s result =
     (if ''all'' \<notin> set (competitionFilter s)
      then filter (\<lambda>keyword. competitionLevelText (competitionLevel keyword) \<in> set (competitionFilter s)) result
      else result)"

text \<open>
  Lines 1105-1123: the gender, age, best selling month and search volume increase
  filters. Each condition is tested and each body is empty.
\<close>

definition placeholderStages :: "PageState \<Rightarrow> Keyword list \<Rightarrow> Keyword list" where
  "placeholderStages s result =
     (let result = (if genderFilter s \<noteq> ''all'' then result else result);
          result = (if length (ageFilter s) > 0 then result else result);
          result = (if bestSellingMonthFilter s \<noteq> [] then result else result);
          result = (if searchVolumeIncreaseFilter s \<noteq> [] then result else result)
      in result)"

text \<open>Lines 1125-1136: the sort, when a sort configuration is set.\<close>

definition sortStage :: "PageState \<Rightarrow> Keyword list \<Rightarrow> Keyword list" where
  "sortStage s result =
     (case sortConfig s of
        None \<Rightarrow> result
      | Some cfg \<Rightarrow> arraySort (compareFn cfg) result)"

text \<open>The value of \<^verbatim>\<open>result\<close> when the sort is reached, from the copy of \<^verbatim>\<open>keywords\<close>.\<close>

definition applyFilters :: "PageState \<Rightarrow> Keyword list" where
  "applyFilters s =
     placeholderStages s
       (competitionStage s
         (searchTypeStage s
           (brandStage s
             (volumeStage s
               (textStage s (keywords_list s))))))"

text \<open>The whole effect: \<^verbatim>\<open>setFilteredKeywords(result)\<close> (line 1138).\<close>

definition filterAndSortEffect :: "PageState \<Rightarrow> PageState" where
  "filterAndSortEffect s = s\<lparr> filteredKeywords := sortStage s (applyFilters s) \<rparr>"

subsection \<open>Handlers and timers\<close>

text \<open>\<^verbatim>\<open>handleSort\<close> (lines 680-696).\<close>

definition handleSort :: "string \<Rightarrow> PageState \<Rightarrow> PageState" where
  "handleSort columnId s =
     s\<lparr> sortConfig :=
          (case sortConfig s of
             Some prevConfig \<Rightarrow>
               if key prevConfig = columnId
               then Some \<lparr> key = columnId,
                           direction = (if direction prevConfig = Asc then Desc else Asc) \<rparr>
               else Some \<lparr> key = columnId, direction = Desc \<rparr>
           | None \<Rightarrow> Some \<lparr> key = columnId, direction = Desc \<rparr>) \<rparr>"

text \<open>\<^verbatim>\<open>resetFilters\<close> (lines 728-741).\<close>

definition resetFilters :: "PageState \<Rightarrow> PageState" where
  "resetFilters s =
     s\<lparr> searchTerm := [], searchVolumeFilter := [], minSearchVolume := [],
        maxSearchVolume := [], brandFilter := [''all''], searchTypeFilter := [''all''],
        competitionFilter := [''all''], genderFilter := ''all'', ageFilter := [],
        bestSellingMonthFilter := [], searchVolumeIncreaseFilter := [],
        customSearchVolumeIncrease := [] \<rparr>"

text \<open>
  \<^verbatim>\<open>handleScroll\<close> (lines 1163-1183), up to the start of its timer. The scroll container
  is rendered only while \<^verbatim>\<open>isLoading\<close> is false (line 1855), so its ref is null exactly
  while the page is loading. The timer's callback closes over \<^verbatim>\<open>filteredKeywords.length\<close>.
  The listener reads \<^verbatim>\<open>isLoadingMore\<close> and \<^verbatim>\<open>visibleKeywords\<close> as of the render that
  attached it; here they are read from the current state, which takes the page to have
  rendered again between two scroll signals.
\<close>

definition handleScroll :: "int \<Rightarrow> int \<Rightarrow> int \<Rightarrow> PageState \<Rightarrow> PageState" where
  "handleScroll scrollTop scrollHeight clientHeight s =
     (if isLoading s then s
      else if scrollTop + clientHeight \<ge> scrollHeight - 200
              \<and> \<not> isLoadingMore s
              \<and> visibleKeywords s < length (filteredKeywords s)
      then s\<lparr> isLoadingMore := True, pendingLoadMore := Some (length (filteredKeywords s)) \<rparr>
      else s)"

text \<open>The callback of that timer (lines 1177-1181).\<close>

definition loadMoreTimeout :: "PageState \<Rightarrow> PageState" where
  "loadMoreTimeout s =
     (case pendingLoadMore s of
        None \<Rightarrow> s
      | Some filteredLength \<Rightarrow>
          s\<lparr> visibleKeywords := min (visibleKeywords s + 20) filteredLength,
             isLoadingMore := False,
             pendingLoadMore := None \<rparr>)"

text \<open>
  One growth request from start to end: the scroll signal and then its timer, with
  nothing in between.
\<close>

definition loadMore :: "int \<Rightarrow> int \<Rightarrow> int \<Rightarrow> PageState \<Rightarrow> PageState" where
  "loadMore scrollTop scrollHeight clientHeight s =
     loadMoreTimeout (handleScroll scrollTop scrollHeight clientHeight s)"

text \<open>\<^verbatim>\<open>filteredKeywords.slice(0, visibleKeywords)\<close> (line 1899).\<close>

definition visibleSlice :: "PageState \<Rightarrow> Keyword list" where
  "visibleSlice s = take (visibleKeywords s) (filteredKeywords s)"

text \<open>
  The category select's \<^verbatim>\<open>onValueChange\<close>, for a category found among the options
  (lines 1303-1314): with a non-empty id the page shows the loading state and starts a
  load timer.
\<close>

definition selectCategory :: "string \<Rightarrow> PageState \<Rightarrow> PageState" where
  "selectCategory categoryId s =
     (if categoryId \<noteq> []
      then s\<lparr> isLoading := True, pendingLoads := pendingLoads s @ [categoryId] \<rparr>
      else s)"

text \<open>
  The callback of the oldest load timer (lines 1043-1048 and 1308-1313).
  \<^verbatim>\<open>generateMockKeywords\<close> draws its records at random when the callback runs; the
  outcome of that call is the argument \<open>generateMockKeywords\<close>.
\<close>

definition loadTimeout :: "(string \<Rightarrow> Keyword list) \<Rightarrow> PageState \<Rightarrow> PageState" where
  "loadTimeout generateMockKeywords s =
     (case pendingLoads s of
        [] \<Rightarrow> s
      | categoryId # rest \<Rightarrow>
          (let newKeywords = generateMockKeywords categoryId
           in s\<lparr> keywords_list := newKeywords, filteredKeywords := newKeywords,
                 isLoading := False, pendingLoads := rest \<rparr>))"

subsection \<open>The number inputs of the custom range\<close>

text \<open>
  The minimum and maximum fields are \<^verbatim>\<open><Input type="number">\<close> (lines 1450-1466), and
  their handlers store \<^verbatim>\<open>e.target.value\<close>. The value of a number input is the text in
  the field when that text is a valid floating-point number, and the empty string
  otherwise. A valid floating-point number is an optional minus sign, then digits, or a
  point followed by digits, or both in that order, then optionally an exponent:
  \<^verbatim>\<open>e\<close> or \<^verbatim>\<open>E\<close>, an optional sign and digits.
\<close>

definition isAsciiDigit :: "char \<Rightarrow> bool" where
  "isAsciiDigit c = (CHR ''0'' \<le> c \<and> c \<le> CHR ''9'')"

definition isValidFloatingPointNumber :: "string \<Rightarrow> bool" where
  "isValidFloatingPointNumber v =
     (let unsigned = (if take 1 v = ''-'' then drop 1 v else v);
          whole = takeWhile isAsciiDigit unsigned;
          afterWhole = dropWhile isAsciiDigit unsigned;
          hasFraction = (take 1 afterWhole = ''.'');
          fraction = (if hasFraction then takeWhile isAsciiDigit (drop 1 afterWhole) else []);
          afterFraction =
            (if hasFraction then dropWhile isAsciiDigit (drop 1 afterWhole) else afterWhole);
          hasExponent = (take 1 afterFraction = ''e'' \<or> take 1 afterFraction = ''E'');
          afterSign =
            (if take 1 (drop 1 afterFraction) = ''-'' \<or> take 1 (drop 1 afterFraction) = ''+''
             then drop 2 afterFraction else drop 1 afterFraction)
      in (whole \<noteq> [] \<or> hasFraction)
         \<and> (if hasFraction then fraction \<noteq> [] else True)
         \<and> (if hasExponent then afterSign \<noteq> [] \<and> list_all isAsciiDigit afterSign
            else afterFraction = []))"

definition numberInputValue :: "string \<Rightarrow> string" where
  "numberInputValue typed = (if isValidFloatingPointNumber typed then typed else [])"

subsection \<open>Events\<close>

text \<open>
  What can happen to the page: a user action on a filter control, a click on a sortable
  column header, a scroll of the table, a category selection, and the firing of a timer.
  \<open>SetMinSearchVolume\<close> and \<open>SetMaxSearchVolume\<close> carry the text now standing in the
  number input; the other setters carry the value their handler stores.
\<close>

datatype Event =
    SetSearchTerm string
  | SetSearchVolumeFilter string
  | SetMinSearchVolume string
  | SetMaxSearchVolume string
  | BrandFilterChange string
  | SearchTypeFilterChange string
  | CompetitionFilterChange string
  | SetGenderFilter string
  | AgeFilterChange string
  | SetBestSellingMonthFilter string
  | SetSearchVolumeIncreaseFilter string
  | SetCustomSearchVolumeIncrease string
  | ResetFilters
  | Sort string
  | Scroll int int int
  | LoadMoreTimeout
  | SelectCategory string
  | LoadTimeout "string \<Rightarrow> Keyword list"

text \<open>The state update of an event, before any effect runs.\<close>

fun update :: "Event \<Rightarrow> PageState \<Rightarrow> PageState" where
  "update (SetSearchTerm v) s = s\<lparr> searchTerm := v \<rparr>"
| "update (SetSearchVolumeFilter v) s = s\<lparr> searchVolumeFilter := v \<rparr>"
| "update (SetMinSearchVolume typed) s = s\<lparr> minSearchVolume := numberInputValue typed \<rparr>"
| "update (SetMaxSearchVolume typed) s = s\<lparr> maxSearchVolume := numberInputValue typed \<rparr>"
| "update (BrandFilterChange v) s = s\<lparr> brandFilter := handleBrandFilterChange v (brandFilter s) \<rparr>"
| "update (SearchTypeFilterChange v) s =
     s\<lparr> searchTypeFilter := handleSearchTypeFilterChange v (searchTypeFilter s) \<rparr>"
| "update (CompetitionFilterChange v) s =
     s\<lparr> competitionFilter := handleCompetitionFilterChange v (competitionFilter s) \<rparr>"
| "update (SetGenderFilter v) s = s\<lparr> genderFilter := v \<rparr>"
| "update (AgeFilterChange v) s = s\<lparr> ageFilter := handleAgeFilterChange v (ageFilter s) \<rparr>"
| "update (SetBestSellingMonthFilter v) s = s\<lparr> bestSellingMonthFilter := v \<rparr>"
| "update (SetSearchVolumeIncreaseFilter v) s = s\<lparr> searchVolumeIncreaseFilter := v \<rparr>"
| "update (SetCustomSearchVolumeIncrease v) s = s\<lparr> customSearchVolumeIncrease := v \<rparr>"
| "update ResetFilters s = resetFilters s"
| "update (Sort columnId) s = handleSort columnId s"
| "update (Scroll scrollTop scrollHeight clientHeight) s =
     handleScroll scrollTop scrollHeight clientHeight s"
| "update LoadMoreTimeout s = loadMoreTimeout s"
| "update (SelectCategory categoryId) s = selectCategory categoryId s"
| "update (LoadTimeout generateMockKeywords) s = loadTimeout generateMockKeywords s"

text \<open>
  The events that write a dependency of the filter and sort effect (lines 1139-1154):
  all but the scroll, its timer and the category selection, which write none.
\<close>

fun changesFilterOrSortInput :: "Event \<Rightarrow> bool" where
  "changesFilterOrSortInput (Scroll scrollTop scrollHeight clientHeight) = False"
| "changesFilterOrSortInput LoadMoreTimeout = False"
| "changesFilterOrSortInput (SelectCategory categoryId) = False"
| "changesFilterOrSortInput e = True"

text \<open>One event, with the effect re-run after it when one of its dependencies was written.\<close>

definition step :: "Event \<Rightarrow> PageState \<Rightarrow> PageState" where
  "step e s = (if changesFilterOrSortInput e then filterAndSortEffect (update e s) else update e s)"

text \<open>A sequence of events, in order.\<close>

definition run :: "Event list \<Rightarrow> PageState \<Rightarrow> PageState" where
  "run es s = foldl (\<lambda>s e. step e s) s es"

text \<open>The events that change the filter criteria set or the sort specification.\<close>

fun isCriteriaOrSortChange :: "Event \<Rightarrow> bool" where
  "isCriteriaOrSortChange (SetSearchTerm v) = True"
| "isCriteriaOrSortChange (SetSearchVolumeFilter v) = True"
| "isCriteriaOrSortChange (SetMinSearchVolume v) = True"
| "isCriteriaOrSortChange (SetMaxSearchVolume v) = True"
| "isCriteriaOrSortChange (BrandFilterChange v) = True"
| "isCriteriaOrSortChange (SearchTypeFilterChange v) = True"
| "isCriteriaOrSortChange (CompetitionFilterChange v) = True"
| "isCriteriaOrSortChange ResetFilters = True"
| "isCriteriaOrSortChange (Sort columnId) = True"
| "isCriteriaOrSortChange e = False"

subsection \<open>The blocks of the effect as predicates on one record\<close>

text \<open>
  What each block of the effect asks of a record when its guard holds, read off the
  code; a block whose guard does not hold asks nothing. These predicates serve the
  proofs about the effect. The criteria in the words of the specification follow below.
\<close>

definition textPredicate :: "PageState \<Rightarrow> Keyword \<Rightarrow> bool" where
  "textPredicate s keyword =
     (if searchTerm s \<noteq> []
      then includes_str (toLowerCase (name keyword)) (toLowerCase (searchTerm s))
      else True)"

definition volumePredicate :: "PageState \<Rightarrow> Keyword \<Rightarrow> bool" where
  "volumePredicate s keyword =
     (if searchVolumeFilter s = [] then True
      else if searchVolumeFilter s = ''custom'' then
        (if minSearchVolume s \<noteq> []
         then num_ge (searchVolume keyword) (parseInt (minSearchVolume s)) else True)
        \<and> (if maxSearchVolume s \<noteq> []
           then num_le (searchVolume keyword) (parseInt (maxSearchVolume s)) else True)
      else num_ge (searchVolume keyword) (parseInt (searchVolumeFilter s)))"

definition brandPredicate :: "PageState \<Rightarrow> Keyword \<Rightarrow> bool" where
  "brandPredicate s keyword =
     (if ''all'' \<in> set (brandFilter s) then True
      else if ''brand'' \<in> set (brandFilter s) \<and> ''non-brand'' \<notin> set (brandFilter s)
      then isBrand keyword
      else if ''brand'' \<notin> set (brandFilter s) \<and> ''non-brand'' \<in> set (brandFilter s)
      then \<not> isBrand keyword
      else True)"

definition searchTypePredicate :: "PageState \<Rightarrow> Keyword \<Rightarrow> bool" where
  "searchTypePredicate s keyword =
     (if ''all'' \<in> set (searchTypeFilter s) then True
      else searchTypeText (searchType keyword) \<in> set (searchTypeFilter s))"

definition competitionPredicate :: "PageState \<Rightarrow> Keyword \<Rightarrow> bool" where
  "competitionPredicate s keyword =
     (if ''all'' \<in> set (competitionFilter s) then True
      else competitionLevelText (competitionLevel keyword) \<in> set (competitionFilter s))"

definition matchesCriteria :: "PageState \<Rightarrow> Keyword \<Rightarrow> bool" where
  "matchesCriteria s keyword =
     (textPredicate s keyword \<and> volumePredicate s keyword \<and> brandPredicate s keyword
      \<and> searchTypePredicate s keyword \<and> competitionPredicate s keyword)"

text \<open>
  The text filter in the words of the specification, to compare with \<open>textStage\<close>:
  keep the records whose display text contains the trimmed, lower-cased search term as
  a substring, case-insensitively; skip the filter if the term is empty.
\<close>

definition textFilterSpec :: "string \<Rightarrow> Keyword list \<Rightarrow> Keyword list" where
  "textFilterSpec t result =
     (if t = [] then result
      else filter (\<lambda>keyword. includes_str (toLowerCase (name keyword)) (toLowerCase (trim t))) result)"

subsection \<open>The filter criteria set of the specification\<close>

















text \<open>An event that is neither the start of a load nor the firing of a load timer.\<close>

fun isLoadEvent :: "Event \<Rightarrow> bool" where
  "isLoadEvent (SelectCategory categoryId) = True"
| "isLoadEvent (LoadTimeout generateMockKeywords) = True"
| "isLoadEvent e = False"

subsection \<open>Invariants of the reachable states\<close>

text \<open>
  The pagination part of the state: the count never falls below the initial page size;
  the loading flag is set exactly while the scroll timer is pending; and a pending timer
  was started with more records available than are visible.
\<close>

definition paginationInv :: "PageState \<Rightarrow> bool" where
  "paginationInv s =
     (30 \<le> visibleKeywords s
      \<and> (isLoadingMore s = (pendingLoadMore s \<noteq> None))
      \<and> (case pendingLoadMore s of None \<Rightarrow> True | Some n \<Rightarrow> visibleKeywords s < n))"

text \<open>The view in the state is the filtered and sorted dataset of that state.\<close>

definition viewInSync :: "PageState \<Rightarrow> bool" where
  "viewInSync s = (filteredKeywords s = sortStage s (applyFilters s))"

subsection \<open>Example data\<close>

text \<open>A keyword object as \<^verbatim>\<open>generateMockKeywords\<close> builds it (lines 268-281).\<close>

definition exampleKeyword ::
  "string \<Rightarrow> string \<Rightarrow> int \<Rightarrow> CompetitionLevel \<Rightarrow> bool \<Rightarrow> SearchType \<Rightarrow> Keyword" where
  "exampleKeyword i n v c b t =
     \<lparr> keyword_id = i, name = n, searchVolume = v, productCount = 100,
       competitionLevel = c, trendData = [1, 2, 3, 4, 5, 6, 7, 8, 9, 10, 11, 12],
       isBrand = b, searchType = t \<rparr>"

definition exampleDataset :: "Keyword list" where
  "exampleDataset =
     [ exampleKeyword ''1-kw-1'' ''Running Shoes'' 30000 High True Shopping,
       exampleKeyword ''1-kw-2'' ''shoe rack'' 12000 Low False Informational,
       exampleKeyword ''1-kw-3'' ''Summer Dress'' 12000 Medium False Shopping ]"

text \<open>A batch of \<open>n\<close> records with distinct ids and falling search volume.\<close>

definition exampleBatch :: "nat \<Rightarrow> string \<Rightarrow> Keyword list" where
  "exampleBatch n categoryId =
     map (\<lambda>i. exampleKeyword (categoryId @ ''-kw-'' @ numberToString (Suc i)) ''keyword''
                 (51000 - int i) Low False Shopping) [0..<n]"

subsection \<open>Toggle handlers keep the all-sentinel invariant\<close>

lemma searchType_handler_eq: "handleSearchTypeFilterChange = handleBrandFilterChange"
  by (intro ext) (simp add: handleSearchTypeFilterChange_def handleBrandFilterChange_def)

lemma competition_handler_eq: "handleCompetitionFilterChange = handleBrandFilterChange"
  by (intro ext) (simp add: handleCompetitionFilterChange_def handleBrandFilterChange_def)

lemma brand_toggle_all: "handleBrandFilterChange ''all'' s = [''all'']"
  by (simp add: handleBrandFilterChange_def)

lemma brand_toggle_select:
  assumes "v \<noteq> ''all''" and "v \<notin> set s"
  shows "handleBrandFilterChange v s = filter (\<lambda>item. item \<noteq> ''all'') s @ [v]"
  using assms by (simp add: handleBrandFilterChange_def)

lemma brand_toggle_deselect:
  assumes "v \<noteq> ''all''" and "v \<in> set s"
  shows "handleBrandFilterChange v s =
           (if filter (\<lambda>item. item \<noteq> v) s = [] then [''all''] else filter (\<lambda>item. item \<noteq> v) s)"
  using assms by (simp add: handleBrandFilterChange_def)

lemma brand_toggle_inv:
  assumes "allSentinel s"
  shows "allSentinel (handleBrandFilterChange v s)"
proof (cases "v = ''all''")
  case True
  then show ?thesis by (simp add: brand_toggle_all allSentinel_def)
next
  case notall: False
  show ?thesis
  proof (cases "v \<in> set s")
    case True
    with notall assms have "''all'' \<notin> set s"
      by (auto simp: allSentinel_def)
    then have "''all'' \<notin> set (filter (\<lambda>item. item \<noteq> v) s)" by simp
    with notall True show ?thesis
      by (simp add: brand_toggle_deselect allSentinel_def)
  next
    case False
    with notall show ?thesis
      by (simp add: brand_toggle_select allSentinel_def)
  qed
qed

lemma brand_toggled_inv: "allSentinel (foldl (\<lambda>s v. handleBrandFilterChange v s) s0 vs)"
  if "allSentinel s0"
  using that by (induction vs arbitrary: s0) (simp_all add: brand_toggle_inv)

text \<open>
  C8. For each of the brand, search-type and competition inclusion sets: toggling
  \<^verbatim>\<open>"all"\<close> makes the set exactly \<^verbatim>\<open>["all"]\<close>; selecting a specific value that is not in
  the set adds it and removes \<^verbatim>\<open>"all"\<close>; deselecting a specific value removes it, and
  when nothing is left the set reverts to \<^verbatim>\<open>["all"]\<close>. Hence after any sequence of toggles
  from the initial \<^verbatim>\<open>["all"]\<close> the set is not empty and holds \<^verbatim>\<open>"all"\<close> only alone.
\<close>

theorem toggle_keeps_all_sentinel:
  assumes h: "h = handleBrandFilterChange \<or> h = handleSearchTypeFilterChange
              \<or> h = handleCompetitionFilterChange"
  shows "h ''all'' s = [''all'']
    \<and> (v \<noteq> ''all'' \<and> v \<notin> set s \<longrightarrow>
         h v s = filter (\<lambda>item. item \<noteq> ''all'') s @ [v] \<and> ''all'' \<notin> set (h v s))
    \<and> (v \<noteq> ''all'' \<and> v \<in> set s \<longrightarrow>
         h v s = (if filter (\<lambda>item. item \<noteq> v) s = [] then [''all'']
                  else filter (\<lambda>item. item \<noteq> v) s))
    \<and> allSentinel (toggled h vs)
    \<and> toggled h vs \<noteq> []
    \<and> (''all'' \<in> set (toggled h vs) \<longrightarrow> toggled h vs = [''all''])"
proof -
  from h have eq: "h = handleBrandFilterChange"
    by (auto simp: searchType_handler_eq competition_handler_eq)
  have inv: "allSentinel (toggled h vs)"
    unfolding toggled_def eq by (rule brand_toggled_inv) (simp add: allSentinel_def)
  have "h ''all'' s = [''all'']"
    by (simp add: eq brand_toggle_all)
  moreover have "v \<noteq> ''all'' \<and> v \<notin> set s \<longrightarrow>
         h v s = filter (\<lambda>item. item \<noteq> ''all'') s @ [v] \<and> ''all'' \<notin> set (h v s)"
    by (auto simp: eq brand_toggle_select)
  moreover have "v \<noteq> ''all'' \<and> v \<in> set s \<longrightarrow>
         h v s = (if filter (\<lambda>item. item \<noteq> v) s = [] then [''all'']
                  else filter (\<lambda>item. item \<noteq> v) s)"
    using brand_toggle_deselect [of v s] by (simp add: eq)
  moreover from inv have "toggled h vs \<noteq> []"
    and "''all'' \<in> set (toggled h vs) \<longrightarrow> toggled h vs = [''all'']"
    by (auto simp: allSentinel_def)
  ultimately show ?thesis using inv by blast
qed

theorem toggle_keeps_all_sentinel_witness:
  "handleCompetitionFilterChange ''all'' [''brand''] = [''all'']
   \<and> handleCompetitionFilterChange ''brand'' [''all''] = [''brand'']
   \<and> handleCompetitionFilterChange ''brand'' [''brand''] = [''all'']
   \<and> toggled handleCompetitionFilterChange [''brand'', ''non-brand'', ''brand''] = [''non-brand'']
   \<and> allSentinel (toggled handleCompetitionFilterChange [''brand'', ''non-brand'', ''brand''])"
proof -
  have h: "handleCompetitionFilterChange = handleBrandFilterChange
           \<or> handleCompetitionFilterChange = handleSearchTypeFilterChange
           \<or> handleCompetitionFilterChange = handleCompetitionFilterChange"
    by simp
  have "toggled handleCompetitionFilterChange [''brand'', ''non-brand'', ''brand''] = [''non-brand'']"
    by (simp add: toggled_def handleCompetitionFilterChange_def)
  with toggle_keeps_all_sentinel [OF h, of "[''brand'']" "''brand''" "[''brand'', ''non-brand'', ''brand'']"]
    toggle_keeps_all_sentinel [OF h, of "[''all'']" "''brand''" "[]"]
  show ?thesis by simp
qed

subsection \<open>The insertion sort: permutation, sortedness, stability\<close>

lemma mset_insertSorted: "mset (insertSorted cmp x ys) = add_mset x (mset ys)"
  by (induction ys) simp_all

lemma mset_arraySort: "mset (arraySort cmp xs) = mset xs"
  by (induction xs) (simp_all add: arraySort_def mset_insertSorted)

lemma arraySort_Cons: "arraySort cmp (x # xs) = insertSorted cmp x (arraySort cmp xs)"
  by (simp add: arraySort_def)

lemma arraySort_Nil: "arraySort cmp [] = []"
  by (simp add: arraySort_def)

lemma set_insertSorted: "set (insertSorted cmp x ys) = insert x (set ys)"
  by (induction ys) auto

lemma sorted_insertSorted:
  assumes total: "\<And>a b. cmp a b \<le> 0 \<or> cmp b a \<le> 0"
    and trans: "\<And>a b c. cmp a b \<le> 0 \<Longrightarrow> cmp b c \<le> 0 \<Longrightarrow> cmp a c \<le> 0"
    and "sorted_wrt (\<lambda>a b. cmp a b \<le> 0) ys"
  shows "sorted_wrt (\<lambda>a b. cmp a b \<le> 0) (insertSorted cmp x ys)"
  using assms(3)
proof (induction ys)
  case Nil
  then show ?case by simp
next
  case (Cons y ys)
  show ?case
  proof (cases "cmp x y \<le> 0")
    case True
    with Cons.prems trans show ?thesis by auto
  next
    case False
    with total have "cmp y x \<le> 0" by blast
    with False Cons show ?thesis by (auto simp: set_insertSorted)
  qed
qed

lemma sorted_arraySort:
  assumes total: "\<And>a b. cmp a b \<le> 0 \<or> cmp b a \<le> 0"
    and trans: "\<And>a b c. cmp a b \<le> 0 \<Longrightarrow> cmp b c \<le> 0 \<Longrightarrow> cmp a c \<le> 0"
  shows "sorted_wrt (\<lambda>a b. cmp a b \<le> 0) (arraySort cmp xs)"
proof (induction xs)
  case Nil
  show ?case by (simp add: arraySort_Nil)
next
  case (Cons x xs)
  have "sorted_wrt (\<lambda>a b. cmp a b \<le> 0) (insertSorted cmp x (arraySort cmp xs))"
    by (rule sorted_insertSorted) (fact total, fact trans, fact Cons.IH)
  then show ?case by (simp add: arraySort_Cons)
qed

lemma insertSorted_front:
  "\<forall>y \<in> set ys. cmp x y \<le> 0 \<Longrightarrow> insertSorted cmp x ys = x # ys"
  by (cases ys) simp_all

lemma arraySort_sorted_id:
  "sorted_wrt (\<lambda>a b. cmp a b \<le> 0) xs \<Longrightarrow> arraySort cmp xs = xs"
  by (induction xs) (simp_all add: arraySort_Nil arraySort_Cons insertSorted_front)

lemma filter_insertSorted_other:
  "\<not> P x \<Longrightarrow> filter P (insertSorted cmp x ys) = filter P ys"
  by (induction ys) simp_all

lemma filter_insertSorted_same:
  assumes trans: "\<And>a b c. cmp a b \<le> 0 \<Longrightarrow> cmp b c \<le> 0 \<Longrightarrow> cmp a c \<le> 0"
    and "sorted_wrt (\<lambda>a b. cmp a b \<le> 0) ys" and "P x"
  shows "filter P (insertSorted cmp x ys) = insertSorted cmp x (filter P ys)"
  using assms(2)
proof (induction ys)
  case Nil
  with \<open>P x\<close> show ?case by simp
next
  case (Cons y ys)
  show ?case
  proof (cases "cmp x y \<le> 0")
    case True
    from True Cons.prems trans have "\<forall>z \<in> set (y # ys). cmp x z \<le> 0" by auto
    then have "\<forall>z \<in> set (filter P (y # ys)). cmp x z \<le> 0" by auto
    then have "insertSorted cmp x (filter P (y # ys)) = x # filter P (y # ys)"
      by (rule insertSorted_front)
    with True \<open>P x\<close> show ?thesis by simp
  next
    case False
    with Cons show ?thesis by simp
  qed
qed

lemma arraySort_stable:
  assumes total: "\<And>a b. cmp a b \<le> 0 \<or> cmp b a \<le> 0"
    and trans: "\<And>a b c. cmp a b \<le> 0 \<Longrightarrow> cmp b c \<le> 0 \<Longrightarrow> cmp a c \<le> 0"
    and equal: "\<And>a b. P a \<Longrightarrow> P b \<Longrightarrow> cmp a b \<le> 0"
  shows "filter P (arraySort cmp xs) = filter P xs"
proof (induction xs)
  case Nil
  show ?case by (simp add: arraySort_Nil)
next
  case (Cons x xs)
  show ?case
  proof (cases "P x")
    case True
    have sorted: "sorted_wrt (\<lambda>a b. cmp a b \<le> 0) (arraySort cmp xs)"
      by (rule sorted_arraySort) (fact total, fact trans)
    have "filter P (insertSorted cmp x (arraySort cmp xs)) =
            insertSorted cmp x (filter P (arraySort cmp xs))"
      by (rule filter_insertSorted_same) (fact trans, fact sorted, fact True)
    then have "filter P (arraySort cmp (x # xs)) = insertSorted cmp x (filter P (arraySort cmp xs))"
      by (simp add: arraySort_Cons)
    also have "\<dots> = insertSorted cmp x (filter P xs)" by (simp add: Cons.IH)
    also have "\<dots> = x # filter P xs"
      using equal True by (intro insertSorted_front) simp
    finally show ?thesis using True by simp
  next
    case False
    then show ?thesis by (simp add: arraySort_Cons filter_insertSorted_other Cons.IH)
  qed
qed

subsection \<open>The comparison function is a total preorder\<close>

lemma getProp_kind:
  "(\<forall>a. \<exists>n. getProp k a = JNumber n) \<or> (\<forall>a. \<exists>s. getProp k a = JString s) \<or>
   (\<forall>a. \<exists>b. getProp k a = JBoolean b) \<or> (\<forall>a. getProp k a = JUndefined)"
  by (simp add: getProp_def)

lemma compareFn_total: "compareFn cfg a b \<le> 0 \<or> compareFn cfg b a \<le> 0"
proof -
  consider (num) x y where "getProp (key cfg) a = JNumber x" "getProp (key cfg) b = JNumber y"
    | (str) x y where "getProp (key cfg) a = JString x" "getProp (key cfg) b = JString y"
    | (bool) x y where "getProp (key cfg) a = JBoolean x" "getProp (key cfg) b = JBoolean y"
    | (undef) "getProp (key cfg) a = JUndefined" "getProp (key cfg) b = JUndefined"
    using getProp_kind [of "key cfg"] by metis
  then show ?thesis
    by cases (auto simp: compareFn_def)
qed

lemma compareFn_trans:
  assumes "compareFn cfg a b \<le> 0" and "compareFn cfg b c \<le> 0"
  shows "compareFn cfg a c \<le> 0"
proof -
  consider (num) x y z where "getProp (key cfg) a = JNumber x" "getProp (key cfg) b = JNumber y"
      "getProp (key cfg) c = JNumber z"
    | (str) x y z where "getProp (key cfg) a = JString x" "getProp (key cfg) b = JString y"
      "getProp (key cfg) c = JString z"
    | (bool) x y z where "getProp (key cfg) a = JBoolean x" "getProp (key cfg) b = JBoolean y"
      "getProp (key cfg) c = JBoolean z"
    | (undef) "getProp (key cfg) a = JUndefined" "getProp (key cfg) c = JUndefined"
    using getProp_kind [of "key cfg"] by metis
  then show ?thesis
    using assms by cases (auto simp: compareFn_def split: if_splits)
qed

lemma compareFn_equal_keys:
  assumes "getProp (key cfg) a = getProp (key cfg) b"
  shows "compareFn cfg a b = 0"
proof -
  consider (num) x where "getProp (key cfg) b = JNumber x"
    | (str) x where "getProp (key cfg) b = JString x"
    | (bool) x where "getProp (key cfg) b = JBoolean x"
    | (undef) "getProp (key cfg) b = JUndefined"
    by (cases "getProp (key cfg) b") auto
  then show ?thesis
    using assms by cases (auto simp: compareFn_def)
qed

subsection \<open>Each block of the effect is a filter\<close>

lemma textStage_filter: "textStage s result = filter (textPredicate s) result"
  by (simp add: textStage_def textPredicate_def [abs_def])

lemma volumeStage_filter: "volumeStage s result = filter (volumePredicate s) result"
  by (simp add: volumeStage_def volumePredicate_def [abs_def] Let_def)

lemma brandStage_filter: "brandStage s result = filter (brandPredicate s) result"
  by (simp add: brandStage_def brandPredicate_def [abs_def] Let_def)

lemma searchTypeStage_filter: "searchTypeStage s result = filter (searchTypePredicate s) result"
  by (simp add: searchTypeStage_def searchTypePredicate_def [abs_def])

lemma competitionStage_filter: "competitionStage s result = filter (competitionPredicate s) result"
  by (simp add: competitionStage_def competitionPredicate_def [abs_def])

lemma placeholderStages_id: "placeholderStages s result = result"
  by (simp add: placeholderStages_def)

lemma applyFilters_filter: "applyFilters s = filter (matchesCriteria s) (keywords_list s)"
proof -
  have "applyFilters s =
          filter (competitionPredicate s) (filter (searchTypePredicate s) (filter (brandPredicate s)
            (filter (volumePredicate s) (filter (textPredicate s) (keywords_list s)))))"
    by (simp only: applyFilters_def placeholderStages_id competitionStage_filter
        searchTypeStage_filter brandStage_filter volumeStage_filter textStage_filter)
  also have "\<dots> = filter (matchesCriteria s) (keywords_list s)"
    by (simp add: matchesCriteria_def [abs_def] conj_commute conj_left_commute cong: conj_cong)
  finally show ?thesis .
qed

lemma mset_sortStage: "mset (sortStage s result) = mset result"
  by (simp add: sortStage_def mset_arraySort split: option.split)

lemmas eval_simps = initialState_def exampleDataset_def exampleKeyword_def matchesCriteria_def
  textPredicate_def volumePredicate_def brandPredicate_def searchTypePredicate_def
  competitionPredicate_def includes_str_def toLowerCase_def toLowerCaseChar_def char_of_def bit_0
  sublist_code

subsection \<open>The filter against the criteria of the specification\<close>

text \<open>
  \<^verbatim>\<open>parseInt\<close> reads the decimal text of an integer back as that integer. The recursion
  equation of \<open>numberToString\<close> is applied by hand from here on.
\<close>

declare numberToString.simps [simp del]

































subsection \<open>The placeholder filters\<close>

lemma matchesCriteria_agree:
  assumes "searchTerm s' = searchTerm s"
    and "searchVolumeFilter s' = searchVolumeFilter s"
    and "minSearchVolume s' = minSearchVolume s"
    and "maxSearchVolume s' = maxSearchVolume s"
    and "brandFilter s' = brandFilter s"
    and "searchTypeFilter s' = searchTypeFilter s"
    and "competitionFilter s' = competitionFilter s"
  shows "matchesCriteria s' = matchesCriteria s"
  unfolding matchesCriteria_def [abs_def] textPredicate_def volumePredicate_def brandPredicate_def
    searchTypePredicate_def competitionPredicate_def
  by (simp only: assms)

lemma sortStage_agree: "sortConfig s' = sortConfig s \<Longrightarrow> sortStage s' = sortStage s"
  by (simp add: sortStage_def [abs_def])

text \<open>
  C10. Two states that agree on the dataset, the search term, the volume filter and its
  custom range, the brand, search-type and competition inclusion sets and the sort
  configuration give the same filtered and sorted view, whatever their gender, age,
  best-selling-month and search-volume-increase filters are.
\<close>

theorem placeholder_filters_have_no_effect:
  assumes "keywords_list s' = keywords_list s"
    and "searchTerm s' = searchTerm s"
    and "searchVolumeFilter s' = searchVolumeFilter s"
    and "minSearchVolume s' = minSearchVolume s"
    and "maxSearchVolume s' = maxSearchVolume s"
    and "brandFilter s' = brandFilter s"
    and "searchTypeFilter s' = searchTypeFilter s"
    and "competitionFilter s' = competitionFilter s"
    and "sortConfig s' = sortConfig s"
  shows "filteredKeywords (filterAndSortEffect s') = filteredKeywords (filterAndSortEffect s)"
proof -
  have "matchesCriteria s' = matchesCriteria s"
    by (rule matchesCriteria_agree) (fact assms)+
  then have "applyFilters s' = applyFilters s"
    by (simp add: applyFilters_filter assms(1))
  moreover have "sortStage s' = sortStage s"
    by (rule sortStage_agree) (fact assms)
  ultimately show ?thesis by (simp add: filterAndSortEffect_def)
qed

lemma exampleDataset_sorted:
  "arraySort (compareFn \<lparr> key = ''searchVolume'', direction = Desc \<rparr>) exampleDataset = exampleDataset"
  by (simp add: arraySort_def compareFn_def getProp_def exampleDataset_def exampleKeyword_def)

theorem placeholder_filters_have_no_effect_witness:
  "filteredKeywords (filterAndSortEffect
      (initialState\<lparr> keywords_list := exampleDataset, genderFilter := ''male'',
          ageFilter := [''20s''], bestSellingMonthFilter := ''3'',
          searchVolumeIncreaseFilter := ''5000'', customSearchVolumeIncrease := ''7'' \<rparr>))
   = filteredKeywords (filterAndSortEffect (initialState\<lparr> keywords_list := exampleDataset \<rparr>))"
  by (rule placeholder_filters_have_no_effect) simp_all

subsection \<open>The text filter\<close>

lemma toLowerCaseChar_idem: "toLowerCaseChar (toLowerCaseChar c) = toLowerCaseChar c"
proof (cases "CHR ''A'' \<le> c \<and> c \<le> CHR ''Z''")
  case True
  define d where "d = char_of (of_char c + (32::nat))"
  from True have r: "65 \<le> (of_char c :: nat)" "(of_char c :: nat) \<le> 90"
    by (simp_all add: less_eq_char_def)
  then have "(of_char d :: nat) = of_char c + 32"
    by (simp add: d_def)
  with r have "\<not> (CHR ''A'' \<le> d \<and> d \<le> CHR ''Z'')"
    by (simp add: less_eq_char_def)
  then have "toLowerCaseChar d = d"
    unfolding toLowerCaseChar_def by (rule if_not_P)
  moreover from True have "toLowerCaseChar c = d"
    unfolding toLowerCaseChar_def d_def by (rule if_P)
  ultimately show ?thesis by simp
next
  case False
  then have "toLowerCaseChar c = c"
    unfolding toLowerCaseChar_def by (rule if_not_P)
  then show ?thesis by simp
qed

lemma toLowerCase_idem: "toLowerCase (toLowerCase t) = toLowerCase t"
  by (simp add: toLowerCase_def toLowerCaseChar_idem)

text \<open>
  C3, as the code has it. With an empty search term the text block keeps every record.
  With a non-empty term it keeps exactly the records whose lower-cased name contains the
  lower-cased term as a contiguous substring; the term is used as typed, without
  trimming. The case of the term does not matter.
\<close>

theorem text_filter_lower_cased_untrimmed:
  "(searchTerm s = [] \<longrightarrow> textStage s result = result)
   \<and> (searchTerm s \<noteq> [] \<longrightarrow>
        textStage s result =
          filter (\<lambda>keyword. \<exists>before after.
                    toLowerCase (name keyword) = before @ toLowerCase (searchTerm s) @ after) result)
   \<and> textStage (s\<lparr> searchTerm := toLowerCase (searchTerm s) \<rparr>) result = textStage s result"
  by (simp add: textStage_def includes_str_def sublist_def toLowerCase_idem)
    (simp add: toLowerCase_def)

theorem text_filter_lower_cased_untrimmed_witness:
  "textStage (initialState\<lparr> searchTerm := ''SHOE'' \<rparr>) exampleDataset
     = [exampleKeyword ''1-kw-1'' ''Running Shoes'' 30000 High True Shopping,
        exampleKeyword ''1-kw-2'' ''shoe rack'' 12000 Low False Informational]
   \<and> textStage initialState exampleDataset = exampleDataset"
proof -
  have "textStage (initialState\<lparr> searchTerm := ''SHOE'' \<rparr>) exampleDataset
     = [exampleKeyword ''1-kw-1'' ''Running Shoes'' 30000 High True Shopping,
        exampleKeyword ''1-kw-2'' ''shoe rack'' 12000 Low False Informational]"
    by (simp add: textStage_def eval_simps)
  moreover have "searchTerm initialState = []" by (simp add: initialState_def)
  ultimately show ?thesis
    using text_filter_lower_cased_untrimmed [of initialState exampleDataset] by simp
qed

text \<open>
  The term \<^verbatim>\<open>"shoes "\<close> with a trailing space: the specification's filter trims it and
  keeps the record named \<^verbatim>\<open>Running Shoes\<close>; the code looks for the space too and keeps
  nothing.
\<close>

theorem text_filter_trim_counterexample:
  "textStage (initialState\<lparr> searchTerm := ''shoes '' \<rparr>) exampleDataset = []
   \<and> textFilterSpec ''shoes '' exampleDataset
       = [exampleKeyword ''1-kw-1'' ''Running Shoes'' 30000 High True Shopping]
   \<and> textStage (initialState\<lparr> searchTerm := ''shoes '' \<rparr>) exampleDataset
       \<noteq> textFilterSpec ''shoes '' exampleDataset"
  by (simp add: textStage_def textFilterSpec_def trim_def isWhiteSpace_def eval_simps)

subsection \<open>The custom volume range\<close>

lemma parseInt_abc: "parseInt ''abc'' = None"
  by (simp add: parseInt_def isWhiteSpace_def isRadixDigit_def digitValue_def)

lemma parseInt_10000: "parseInt ''10000'' = Some 10000"
  by (simp add: parseInt_def isWhiteSpace_def isRadixDigit_def digitValue_def digitsValue_def)

lemma parseInt_12abc: "parseInt '' 12abc'' = Some 12"
  by (simp add: parseInt_def isWhiteSpace_def isRadixDigit_def digitValue_def digitsValue_def)

lemma parseInt_hex: "parseInt ''-0x1F'' = Some (- 31)"
  by (simp add: parseInt_def isWhiteSpace_def isRadixDigit_def digitValue_def digitsValue_def)

lemma number_input_examples:
  "numberInputValue ''abc'' = []"
  "numberInputValue ''12abc'' = []"
  "numberInputValue ''1e'' = []"
  "numberInputValue ''-'' = []"
  "numberInputValue ''1.'' = []"
  "numberInputValue '' 12'' = []"
  "numberInputValue [] = []"
  "numberInputValue ''10000'' = ''10000''"
  "numberInputValue ''-12.5e+3'' = ''-12.5e+3''"
  "numberInputValue ''.5'' = ''.5''"
  by (simp_all add: numberInputValue_def isValidFloatingPointNumber_def isAsciiDigit_def)

text \<open>
  What the volume block does in custom range mode with whatever strings the two state
  variables hold: an empty string is a bound that is not set, and a non-empty string in
  which \<^verbatim>\<open>parseInt\<close> finds no number lets no record pass.
\<close>

lemma custom_range_bounds:
  assumes "searchVolumeFilter s = ''custom''"
  shows "volumeStage s result =
           filter (\<lambda>keyword.
               (if minSearchVolume s = [] then True
                else case parseInt (minSearchVolume s) of
                       None \<Rightarrow> False | Some lo \<Rightarrow> lo \<le> searchVolume keyword)
             \<and> (if maxSearchVolume s = [] then True
                else case parseInt (maxSearchVolume s) of
                       None \<Rightarrow> False | Some hi \<Rightarrow> searchVolume keyword \<le> hi)) result"
  using assms by (simp add: volumeStage_def num_ge_def num_le_def Let_def)

lemma malformed_stored_empty:
  "\<not> isValidFloatingPointNumber typed \<Longrightarrow> numberInputValue typed = []"
  by (simp add: numberInputValue_def)

text \<open>
  C4. Text that is not a number, typed into the minimum or the maximum field of the
  custom range, is stored as the empty string. The view is then the one of the state
  with that bound empty, and in custom range mode the volume block applies only the
  other side of the range (or nothing, when that side is empty too). Every case returns
  a result; none raises an error.
\<close>

theorem malformed_bound_is_not_set:
  assumes "\<not> isValidFloatingPointNumber typed"
  shows "update (SetMinSearchVolume typed) s = s\<lparr> minSearchVolume := [] \<rparr>
    \<and> update (SetMaxSearchVolume typed) s = s\<lparr> maxSearchVolume := [] \<rparr>
    \<and> filteredKeywords (step (SetMinSearchVolume typed) s)
        = filteredKeywords (filterAndSortEffect (s\<lparr> minSearchVolume := [] \<rparr>))
    \<and> filteredKeywords (step (SetMaxSearchVolume typed) s)
        = filteredKeywords (filterAndSortEffect (s\<lparr> maxSearchVolume := [] \<rparr>))
    \<and> (searchVolumeFilter s = ''custom'' \<longrightarrow>
         volumeStage (update (SetMinSearchVolume typed) s) result
           = (if maxSearchVolume s = [] then result
              else filter (\<lambda>keyword. num_le (searchVolume keyword) (parseInt (maxSearchVolume s))) result)
         \<and> volumeStage (update (SetMaxSearchVolume typed) s) result
           = (if minSearchVolume s = [] then result
              else filter (\<lambda>keyword. num_ge (searchVolume keyword) (parseInt (minSearchVolume s))) result))"
proof -
  have v: "numberInputValue typed = []"
    using assms by (rule malformed_stored_empty)
  have lo: "update (SetMinSearchVolume typed) s = s\<lparr> minSearchVolume := [] \<rparr>"
    and hi: "update (SetMaxSearchVolume typed) s = s\<lparr> maxSearchVolume := [] \<rparr>"
    by (simp_all only: update.simps v)
  have slo: "filteredKeywords (step (SetMinSearchVolume typed) s)
        = filteredKeywords (filterAndSortEffect (s\<lparr> minSearchVolume := [] \<rparr>))"
    and shi: "filteredKeywords (step (SetMaxSearchVolume typed) s)
        = filteredKeywords (filterAndSortEffect (s\<lparr> maxSearchVolume := [] \<rparr>))"
    by (simp_all only: step_def changesFilterOrSortInput.simps if_True lo hi)
  have vlo: "volumeStage (s\<lparr> minSearchVolume := [] \<rparr>) result
           = (if maxSearchVolume s = [] then result
              else filter (\<lambda>keyword. num_le (searchVolume keyword) (parseInt (maxSearchVolume s))) result)"
    if "searchVolumeFilter s = ''custom''"
    using that by (simp add: volumeStage_def)
  have vhi: "volumeStage (s\<lparr> maxSearchVolume := [] \<rparr>) result
           = (if minSearchVolume s = [] then result
              else filter (\<lambda>keyword. num_ge (searchVolume keyword) (parseInt (minSearchVolume s))) result)"
    if "searchVolumeFilter s = ''custom''"
    using that by (simp add: volumeStage_def)
  show ?thesis
    unfolding lo hi using slo shi vlo vhi by (intro conjI impI) (simp_all only: lo hi)
qed

theorem malformed_bound_is_not_set_witness:
  "update (SetMinSearchVolume ''abc'') (initialState\<lparr> searchVolumeFilter := ''custom'' \<rparr>)
     = initialState\<lparr> searchVolumeFilter := ''custom'', minSearchVolume := [] \<rparr>
   \<and> volumeStage (update (SetMinSearchVolume ''abc'') (initialState\<lparr> searchVolumeFilter := ''custom'' \<rparr>))
        exampleDataset = exampleDataset"
proof -
  have a: "\<not> isValidFloatingPointNumber ''abc''"
    by (simp add: isValidFloatingPointNumber_def isAsciiDigit_def)
  have c: "searchVolumeFilter (initialState\<lparr> searchVolumeFilter := ''custom'' \<rparr>) = ''custom''"
    by simp
  have m: "maxSearchVolume (initialState\<lparr> searchVolumeFilter := ''custom'' \<rparr>) = []"
    by (simp add: initialState_def)
  note w = malformed_bound_is_not_set [OF a, of "initialState\<lparr> searchVolumeFilter := ''custom'' \<rparr>"
      exampleDataset]
  from w have "update (SetMinSearchVolume ''abc'') (initialState\<lparr> searchVolumeFilter := ''custom'' \<rparr>)
     = initialState\<lparr> searchVolumeFilter := ''custom'', minSearchVolume := [] \<rparr>"
    by (rule conjunct1)
  moreover from w c have "volumeStage (update (SetMinSearchVolume ''abc'')
        (initialState\<lparr> searchVolumeFilter := ''custom'' \<rparr>)) exampleDataset
      = (if maxSearchVolume (initialState\<lparr> searchVolumeFilter := ''custom'' \<rparr>) = [] then exampleDataset
         else filter (\<lambda>keyword. num_le (searchVolume keyword)
                (parseInt (maxSearchVolume (initialState\<lparr> searchVolumeFilter := ''custom'' \<rparr>))))
              exampleDataset)"
    by blast
  ultimately show ?thesis
    by (simp only: m if_True simp_thms)
qed

subsection \<open>The pagination window over the events\<close>

lemma length_sortStage: "length (sortStage s result) = length result"
  using mset_sortStage [of s result] by (metis size_mset)

lemma filteredKeywords_effect:
  "filteredKeywords (filterAndSortEffect s) = sortStage s (applyFilters s)"
  by (simp add: filterAndSortEffect_def)

lemma visibleKeywords_effect: "visibleKeywords (filterAndSortEffect s) = visibleKeywords s"
  by (simp add: filterAndSortEffect_def)

lemma visibleKeywords_update:
  "e \<noteq> LoadMoreTimeout \<Longrightarrow> visibleKeywords (update e s) = visibleKeywords s"
  by (cases e)
    (simp_all add: resetFilters_def handleSort_def handleScroll_def selectCategory_def
      loadTimeout_def Let_def split: list.split)

lemma visibleKeywords_step:
  "e \<noteq> LoadMoreTimeout \<Longrightarrow> visibleKeywords (step e s) = visibleKeywords s"
  by (simp add: step_def visibleKeywords_effect visibleKeywords_update)

text \<open>The pagination part of the state, and what every event keeps true of it.\<close>

lemma pagination_effect:
  "isLoadingMore (filterAndSortEffect s) = isLoadingMore s"
  "pendingLoadMore (filterAndSortEffect s) = pendingLoadMore s"
  by (simp_all add: filterAndSortEffect_def)

lemma pagination_update_other:
  assumes "e \<noteq> LoadMoreTimeout" and "\<forall>a b c. e \<noteq> Scroll a b c"
  shows "isLoadingMore (update e s) = isLoadingMore s"
    and "pendingLoadMore (update e s) = pendingLoadMore s"
  using assms
  by (cases e; simp add: resetFilters_def handleSort_def selectCategory_def
      loadTimeout_def Let_def split: list.split)+

lemma paginationInv_initial: "paginationInv initialState"
  by (simp add: paginationInv_def initialState_def)

lemma paginationInv_handleScroll:
  "paginationInv s \<Longrightarrow> paginationInv (handleScroll a b c s)"
  by (simp add: paginationInv_def handleScroll_def)

lemma paginationInv_loadMoreTimeout:
  "paginationInv s \<Longrightarrow> paginationInv (loadMoreTimeout s)"
  by (auto simp: paginationInv_def loadMoreTimeout_def split: option.splits)

lemma paginationInv_step:
  assumes "paginationInv s"
  shows "paginationInv (step e s)"
proof (cases "e = LoadMoreTimeout \<or> (\<exists>a b c. e = Scroll a b c)")
  case True
  with assms show ?thesis
    by (auto simp: step_def paginationInv_handleScroll paginationInv_loadMoreTimeout)
next
  case False
  then have "visibleKeywords (step e s) = visibleKeywords s"
    and "isLoadingMore (step e s) = isLoadingMore s"
    and "pendingLoadMore (step e s) = pendingLoadMore s"
    by (simp_all add: step_def visibleKeywords_effect visibleKeywords_update pagination_effect
        pagination_update_other)
  with assms show ?thesis by (simp add: paginationInv_def split: option.splits)
qed

lemma run_snoc: "run (es @ [e]) s = step e (run es s)"
  by (simp add: run_def)

lemma run_Cons: "run (e # es) s = run es (step e s)"
  by (simp add: run_def)

lemma run_Nil: "run [] s = s"
  by (simp add: run_def)

lemma run_append: "run (es @ es') s = run es' (run es s)"
  by (simp add: run_def)

lemma paginationInv_run: "paginationInv s \<Longrightarrow> paginationInv (run es s)"
  by (induction es rule: rev_induct) (simp_all add: run_Nil run_snoc paginationInv_step)

lemma applyFilters_agree:
  assumes "keywords_list s' = keywords_list s"
    and "searchTerm s' = searchTerm s"
    and "searchVolumeFilter s' = searchVolumeFilter s"
    and "minSearchVolume s' = minSearchVolume s"
    and "maxSearchVolume s' = maxSearchVolume s"
    and "brandFilter s' = brandFilter s"
    and "searchTypeFilter s' = searchTypeFilter s"
    and "competitionFilter s' = competitionFilter s"
  shows "applyFilters s' = applyFilters s"
proof -
  have "matchesCriteria s' = matchesCriteria s"
    by (rule matchesCriteria_agree) (fact assms)+
  then show ?thesis by (simp add: applyFilters_filter assms(1))
qed

lemma viewInSync_effect: "viewInSync (filterAndSortEffect s)"
proof -
  have "applyFilters (filterAndSortEffect s) = applyFilters s"
    by (rule applyFilters_agree) (simp_all add: filterAndSortEffect_def)
  moreover have "sortStage (filterAndSortEffect s) = sortStage s"
    by (rule sortStage_agree) (simp add: filterAndSortEffect_def)
  ultimately show ?thesis by (simp add: viewInSync_def filteredKeywords_effect)
qed

lemma viewInSync_step:
  assumes "viewInSync s"
  shows "viewInSync (step e s)"
proof (cases "changesFilterOrSortInput e")
  case True
  then show ?thesis by (simp add: step_def viewInSync_effect)
next
  case False
  then have e: "(\<exists>a b c. e = Scroll a b c) \<or> e = LoadMoreTimeout \<or> (\<exists>c. e = SelectCategory c)"
    by (cases e) simp_all
  have f: "filteredKeywords (update e s) = filteredKeywords s"
    using e by (auto simp: handleScroll_def loadMoreTimeout_def selectCategory_def split: option.split)
  have "applyFilters (update e s) = applyFilters s"
    by (rule applyFilters_agree)
      (use e in \<open>auto simp: handleScroll_def loadMoreTimeout_def selectCategory_def split: option.split\<close>)
  moreover have "sortStage (update e s) = sortStage s"
    by (rule sortStage_agree)
      (use e in \<open>auto simp: handleScroll_def loadMoreTimeout_def selectCategory_def split: option.split\<close>)
  ultimately show ?thesis
    using assms False by (simp add: step_def viewInSync_def f)
qed

lemma viewInSync_initial: "viewInSync initialState"
  by (simp add: viewInSync_def applyFilters_filter sortStage_def arraySort_Nil initialState_def)

lemma viewInSync_run: "viewInSync s \<Longrightarrow> viewInSync (run es s)"
  by (induction es rule: rev_induct) (simp_all add: run_Nil run_snoc viewInSync_step)

lemma length_exampleBatch: "length (exampleBatch n c) = n"
  by (simp add: exampleBatch_def)

lemma matchesCriteria_default:
  assumes "searchTerm s = []" and "searchVolumeFilter s = []"
    and "''all'' \<in> set (brandFilter s)" and "''all'' \<in> set (searchTypeFilter s)"
    and "''all'' \<in> set (competitionFilter s)"
  shows "matchesCriteria s keyword"
  by (simp add: matchesCriteria_def textPredicate_def volumePredicate_def
      brandPredicate_def searchTypePredicate_def competitionPredicate_def assms)

lemma after_first_load:
  "visibleKeywords (run [LoadTimeout g] initialState) = 30"
  "\<not> isLoading (run [LoadTimeout g] initialState)"
  "\<not> isLoadingMore (run [LoadTimeout g] initialState)"
  "pendingLoadMore (run [LoadTimeout g] initialState) = None"
  "length (filteredKeywords (run [LoadTimeout g] initialState)) = length (g ''1'')"
proof -
  let ?s = "run [LoadTimeout g] initialState"
  have s: "?s = filterAndSortEffect (loadTimeout g initialState)"
    by (simp add: run_def step_def)
  have l: "loadTimeout g initialState =
             initialState\<lparr> keywords_list := g ''1'', filteredKeywords := g ''1'',
                            isLoading := False, pendingLoads := [] \<rparr>"
    by (simp add: loadTimeout_def initialState_def Let_def)
  show "visibleKeywords ?s = 30" "\<not> isLoading ?s" "\<not> isLoadingMore ?s" "pendingLoadMore ?s = None"
    by (simp_all add: s l filterAndSortEffect_def) (simp_all add: initialState_def)
  have "matchesCriteria (loadTimeout g initialState) keyword" for keyword
    by (rule matchesCriteria_default) (simp_all add: l, simp_all add: initialState_def)
  then have "applyFilters (loadTimeout g initialState) = keywords_list (loadTimeout g initialState)"
    by (simp add: applyFilters_filter)
  then have "applyFilters (loadTimeout g initialState) = g ''1''"
    by (simp add: l)
  then show "length (filteredKeywords ?s) = length (g ''1'')"
    by (simp add: s filteredKeywords_effect length_sortStage)
qed

text \<open>
  C6, as the code has it. The visible slice has \<open>min visible-count total-available\<close>
  records. A growth request (a scroll signal near the bottom and then its timer, with the
  table shown and no request pending) raises the visible count to
  \<open>min (visible-count + 20) total-available\<close>, a strict increase, when the count is below
  the total; when the count is equal to or above the total it changes nothing.
\<close>

theorem visible_slice_and_load_more:
  "length (visibleSlice s) = min (visibleKeywords s) (length (filteredKeywords s))
   \<and> (\<not> isLoading s \<and> \<not> isLoadingMore s \<and> pendingLoadMore s = None
        \<and> scrollTop + clientHeight \<ge> scrollHeight - 200 \<longrightarrow>
        (visibleKeywords s < length (filteredKeywords s) \<longrightarrow>
           visibleKeywords (loadMore scrollTop scrollHeight clientHeight s)
             = min (visibleKeywords s + 20) (length (filteredKeywords s))
           \<and> visibleKeywords s < visibleKeywords (loadMore scrollTop scrollHeight clientHeight s)
           \<and> filteredKeywords (loadMore scrollTop scrollHeight clientHeight s) = filteredKeywords s)
      \<and> (length (filteredKeywords s) \<le> visibleKeywords s \<longrightarrow>
           loadMore scrollTop scrollHeight clientHeight s = s))"
  by (simp add: visibleSlice_def loadMore_def handleScroll_def loadMoreTimeout_def)

theorem visible_slice_and_load_more_witness:
  "visibleKeywords (loadMore 0 0 0 (run [LoadTimeout (exampleBatch 40)] initialState)) = 40
   \<and> visibleKeywords (run [LoadTimeout (exampleBatch 40)] initialState) = 30
   \<and> length (visibleSlice (run [LoadTimeout (exampleBatch 40)] initialState)) = 30"
  using visible_slice_and_load_more [of "run [LoadTimeout (exampleBatch 40)] initialState" 0 0 0]
  by (simp add: after_first_load length_exampleBatch)

text \<open>
  A loaded view of 3 records under the initial count of 30: the count differs from the
  total, and the growth request leaves the state as it is.
\<close>

theorem load_more_noop_counterexample:
  "visibleKeywords (run [LoadTimeout (\<lambda>categoryId. exampleDataset)] initialState) = 30
   \<and> length (filteredKeywords (run [LoadTimeout (\<lambda>categoryId. exampleDataset)] initialState)) = 3
   \<and> \<not> isLoading (run [LoadTimeout (\<lambda>categoryId. exampleDataset)] initialState)
   \<and> \<not> isLoadingMore (run [LoadTimeout (\<lambda>categoryId. exampleDataset)] initialState)
   \<and> loadMore 0 0 0 (run [LoadTimeout (\<lambda>categoryId. exampleDataset)] initialState)
       = run [LoadTimeout (\<lambda>categoryId. exampleDataset)] initialState
   \<and> \<not> visibleKeywords (run [LoadTimeout (\<lambda>categoryId. exampleDataset)] initialState)
         < visibleKeywords (loadMore 0 0 0 (run [LoadTimeout (\<lambda>categoryId. exampleDataset)] initialState))"
proof -
  let ?s = "run [LoadTimeout (\<lambda>categoryId. exampleDataset)] initialState"
  have len: "length (filteredKeywords ?s) = 3"
    by (simp add: after_first_load exampleDataset_def)
  have "loadMore 0 0 0 ?s = ?s"
    by (simp add: loadMore_def handleScroll_def loadMoreTimeout_def after_first_load(1-4) len)
  then show ?thesis
    by (simp add: after_first_load(1-4) len)
qed

text \<open>
  C5, as the code has it. In every reachable state the visible count is at least the
  initial page size 30 (so at least 0), the view held in the state is the filtered and
  sorted dataset, and the visible slice has \<open>min visible-count total-available\<close> records,
  never more than the total. The count itself is not bounded by the total.
\<close>

theorem visible_count_invariant:
  "paginationInv (run es initialState)
   \<and> viewInSync (run es initialState)
   \<and> 30 \<le> visibleKeywords (run es initialState)
   \<and> length (visibleSlice (run es initialState))
       = min (visibleKeywords (run es initialState)) (length (filteredKeywords (run es initialState)))
   \<and> length (visibleSlice (run es initialState)) \<le> length (filteredKeywords (run es initialState))"
proof -
  have p: "paginationInv (run es initialState)"
    by (rule paginationInv_run) (rule paginationInv_initial)
  have v: "viewInSync (run es initialState)"
    by (rule viewInSync_run) (rule viewInSync_initial)
  from p have "30 \<le> visibleKeywords (run es initialState)"
    by (simp add: paginationInv_def)
  with p v show ?thesis by (simp add: visibleSlice_def)
qed

theorem visible_count_invariant_witness:
  "paginationInv (run [LoadTimeout (exampleBatch 40), Scroll 0 0 0, LoadMoreTimeout] initialState)
   \<and> 30 \<le> visibleKeywords
        (run [LoadTimeout (exampleBatch 40), Scroll 0 0 0, LoadMoreTimeout] initialState)"
  using visible_count_invariant [of "[LoadTimeout (exampleBatch 40), Scroll 0 0 0, LoadMoreTimeout]"]
  by simp

text \<open>
  After the first load of a dataset of 3 records the count is 30 and the total is 3; in
  the initial state the count is 30 and the total is 0.
\<close>

theorem visible_count_exceeds_total_counterexample:
  "visibleKeywords (run [LoadTimeout (\<lambda>categoryId. exampleDataset)] initialState) = 30
   \<and> length (filteredKeywords (run [LoadTimeout (\<lambda>categoryId. exampleDataset)] initialState)) = 3
   \<and> \<not> visibleKeywords (run [LoadTimeout (\<lambda>categoryId. exampleDataset)] initialState)
         \<le> length (filteredKeywords (run [LoadTimeout (\<lambda>categoryId. exampleDataset)] initialState))
   \<and> \<not> visibleKeywords initialState \<le> length (filteredKeywords initialState)"
  by (simp add: after_first_load exampleDataset_def) (simp add: initialState_def)

lemma after_first_load_more:
  "run [LoadTimeout (exampleBatch 40), Scroll 0 0 0, LoadMoreTimeout] initialState
     = loadMore 0 0 0 (run [LoadTimeout (exampleBatch 40)] initialState)"
  by (simp add: run_def step_def loadMore_def)

lemma visible_after_first_load_more:
  "visibleKeywords (run [LoadTimeout (exampleBatch 40), Scroll 0 0 0, LoadMoreTimeout] initialState) = 40"
  by (simp add: after_first_load_more loadMore_def handleScroll_def loadMoreTimeout_def
      after_first_load length_exampleBatch)

text \<open>
  C2, as the code has it. No event other than the firing of the scroll timer changes the
  visible count. A change of the filter criteria or of the sort specification recomputes
  the view from the dataset and leaves the visible count as it was.
\<close>

theorem criteria_change_keeps_visible_count:
  "(e \<noteq> LoadMoreTimeout \<longrightarrow> visibleKeywords (step e s) = visibleKeywords s)
   \<and> (isCriteriaOrSortChange e \<longrightarrow>
        visibleKeywords (step e s) = visibleKeywords s
        \<and> filteredKeywords (step e s) = sortStage (update e s) (applyFilters (update e s)))"
proof -
  have c: "isCriteriaOrSortChange e \<Longrightarrow> changesFilterOrSortInput e \<and> e \<noteq> LoadMoreTimeout"
    by (cases e) simp_all
  have "filteredKeywords (step e s) = sortStage (update e s) (applyFilters (update e s))"
    if "isCriteriaOrSortChange e"
    using c [OF that] by (simp add: step_def filteredKeywords_effect)
  with c show ?thesis
    by (simp add: visibleKeywords_step)
qed

theorem criteria_change_keeps_visible_count_witness:
  "visibleKeywords (step (SetSearchTerm ''shoe'')
       (run [LoadTimeout (exampleBatch 40), Scroll 0 0 0, LoadMoreTimeout] initialState)) = 40
   \<and> visibleKeywords (step (Sort ''name'')
       (run [LoadTimeout (exampleBatch 40), Scroll 0 0 0, LoadMoreTimeout] initialState)) = 40"
  using criteria_change_keeps_visible_count [of "SetSearchTerm ''shoe''"
      "run [LoadTimeout (exampleBatch 40), Scroll 0 0 0, LoadMoreTimeout] initialState"]
    criteria_change_keeps_visible_count [of "Sort ''name''"
      "run [LoadTimeout (exampleBatch 40), Scroll 0 0 0, LoadMoreTimeout] initialState"]
  by (simp add: visible_after_first_load_more)

text \<open>
  A dataset of 40 records is loaded and one growth request raises the count to 40; a new
  search term, or a click on a column header, leaves it at 40.
\<close>

theorem no_pagination_reset_counterexample:
  "visibleKeywords (run [LoadTimeout (exampleBatch 40), Scroll 0 0 0, LoadMoreTimeout,
                         SetSearchTerm ''shoe''] initialState) = 40
   \<and> visibleKeywords (run [LoadTimeout (exampleBatch 40), Scroll 0 0 0, LoadMoreTimeout,
                         SetSearchTerm ''shoe''] initialState) \<noteq> 30
   \<and> visibleKeywords (run [LoadTimeout (exampleBatch 40), Scroll 0 0 0, LoadMoreTimeout,
                         Sort ''name''] initialState) \<noteq> 30"
proof -
  have "run [LoadTimeout (exampleBatch 40), Scroll 0 0 0, LoadMoreTimeout, e] initialState
        = step e (run [LoadTimeout (exampleBatch 40), Scroll 0 0 0, LoadMoreTimeout] initialState)" for e
    by (simp add: run_def)
  then show ?thesis
    by (simp add: visibleKeywords_step visible_after_first_load_more)
qed

subsection \<open>The sort stage\<close>

lemma compareFn_zero_iff:
  "compareFn cfg a b = 0 \<longleftrightarrow> getProp (key cfg) a = getProp (key cfg) b"
proof -
  consider (num) x y where "getProp (key cfg) a = JNumber x" "getProp (key cfg) b = JNumber y"
    | (str) x y where "getProp (key cfg) a = JString x" "getProp (key cfg) b = JString y"
    | (bool) x y where "getProp (key cfg) a = JBoolean x" "getProp (key cfg) b = JBoolean y"
    | (undef) "getProp (key cfg) a = JUndefined" "getProp (key cfg) b = JUndefined"
    using getProp_kind [of "key cfg"] by metis
  then show ?thesis
    by cases (auto simp: compareFn_def)
qed

lemma sortStage_sorted:
  assumes "sortConfig s = Some cfg"
  shows "sorted_wrt (\<lambda>a b. compareFn cfg a b \<le> 0) (sortStage s result)"
proof -
  have "sorted_wrt (\<lambda>a b. compareFn cfg a b \<le> 0) (arraySort (compareFn cfg) result)"
    by (rule sorted_arraySort) (rule compareFn_total, rule compareFn_trans)
  with assms show ?thesis by (simp add: sortStage_def)
qed

lemma sortStage_idem: "sortStage s (sortStage s result) = sortStage s result"
proof (cases "sortConfig s")
  case None
  then show ?thesis by (simp add: sortStage_def)
next
  case (Some cfg)
  have "arraySort (compareFn cfg) (sortStage s result) = sortStage s result"
    by (rule arraySort_sorted_id) (rule sortStage_sorted [OF Some])
  with Some show ?thesis by (simp add: sortStage_def)
qed

lemma sortStage_stable:
  assumes "sortConfig s = Some cfg"
  shows "filter (\<lambda>keyword. getProp (key cfg) keyword = v) (sortStage s result)
         = filter (\<lambda>keyword. getProp (key cfg) keyword = v) result"
proof -
  have "filter (\<lambda>keyword. getProp (key cfg) keyword = v) (arraySort (compareFn cfg) result)
         = filter (\<lambda>keyword. getProp (key cfg) keyword = v) result"
  proof (rule arraySort_stable)
    show "compareFn cfg a b \<le> 0 \<or> compareFn cfg b a \<le> 0" for a b
      by (rule compareFn_total)
    show "compareFn cfg a b \<le> 0 \<Longrightarrow> compareFn cfg b c \<le> 0 \<Longrightarrow> compareFn cfg a c \<le> 0" for a b c
      by (rule compareFn_trans)
    show "getProp (key cfg) a = v \<Longrightarrow> getProp (key cfg) b = v \<Longrightarrow> compareFn cfg a b \<le> 0" for a b
      by (simp add: compareFn_equal_keys)
  qed
  with assms show ?thesis by (simp add: sortStage_def)
qed

lemma sort_example:
  "sortStage (initialState\<lparr> sortConfig := Some \<lparr> key = ''searchVolume'', direction = Asc \<rparr> \<rparr>)
      exampleDataset
   = [exampleKeyword ''1-kw-2'' ''shoe rack'' 12000 Low False Informational,
      exampleKeyword ''1-kw-3'' ''Summer Dress'' 12000 Medium False Shopping,
      exampleKeyword ''1-kw-1'' ''Running Shoes'' 30000 High True Shopping]"
  by (simp add: sortStage_def arraySort_def compareFn_def getProp_def exampleDataset_def
      exampleKeyword_def)

lemma sort_example_competition:
  "sortStage (initialState\<lparr> sortConfig := Some \<lparr> key = ''competitionLevel'', direction = Asc \<rparr> \<rparr>)
      exampleDataset
   = [exampleKeyword ''1-kw-2'' ''shoe rack'' 12000 Low False Informational,
      exampleKeyword ''1-kw-1'' ''Running Shoes'' 30000 High True Shopping,
      exampleKeyword ''1-kw-3'' ''Summer Dress'' 12000 Medium False Shopping]"
  by (simp add: sortStage_def arraySort_def compareFn_def getProp_def exampleDataset_def
      exampleKeyword_def competitionLevelText_def)

text \<open>
  C7. Sorting with the page's comparison function permutes the records; sorting the result
  again with the same configuration changes nothing; and the records that hold one and
  the same value under the sort key stand in the result in the order they had before.
  The comparison function returns 0 exactly for equal key values, and the result is
  ordered by it. With no sort configuration the records are left as they are.
\<close>

theorem sort_permutation_idempotent_stable:
  "mset (sortStage s result) = mset result
   \<and> sortStage s (sortStage s result) = sortStage s result
   \<and> (sortConfig s = None \<longrightarrow> sortStage s result = result)
   \<and> (\<forall>cfg. sortConfig s = Some cfg \<longrightarrow>
         sorted_wrt (\<lambda>a b. compareFn cfg a b \<le> 0) (sortStage s result)
         \<and> (\<forall>a b. compareFn cfg a b = 0 \<longleftrightarrow> getProp (key cfg) a = getProp (key cfg) b)
         \<and> (\<forall>v. filter (\<lambda>keyword. getProp (key cfg) keyword = v) (sortStage s result)
                = filter (\<lambda>keyword. getProp (key cfg) keyword = v) result))"
proof (intro conjI allI impI)
  show "mset (sortStage s result) = mset result"
    by (rule mset_sortStage)
  show "sortStage s (sortStage s result) = sortStage s result"
    by (rule sortStage_idem)
  show "sortStage s result = result" if "sortConfig s = None"
    using that by (simp add: sortStage_def)
  show "sorted_wrt (\<lambda>a b. compareFn cfg a b \<le> 0) (sortStage s result)"
    if "sortConfig s = Some cfg" for cfg
    using that by (rule sortStage_sorted)
  show "compareFn cfg a b = 0 \<longleftrightarrow> getProp (key cfg) a = getProp (key cfg) b" for cfg a b
    by (rule compareFn_zero_iff)
  show "filter (\<lambda>keyword. getProp (key cfg) keyword = v) (sortStage s result)
                = filter (\<lambda>keyword. getProp (key cfg) keyword = v) result"
    if "sortConfig s = Some cfg" for cfg v
    using that by (rule sortStage_stable)
qed

theorem sort_permutation_idempotent_stable_witness:
  "sortStage (initialState\<lparr> sortConfig := Some \<lparr> key = ''searchVolume'', direction = Asc \<rparr> \<rparr>)
      exampleDataset
   = [exampleKeyword ''1-kw-2'' ''shoe rack'' 12000 Low False Informational,
      exampleKeyword ''1-kw-3'' ''Summer Dress'' 12000 Medium False Shopping,
      exampleKeyword ''1-kw-1'' ''Running Shoes'' 30000 High True Shopping]
   \<and> filter (\<lambda>keyword. getProp ''searchVolume'' keyword = JNumber 12000)
        (sortStage (initialState\<lparr> sortConfig := Some \<lparr> key = ''searchVolume'', direction = Asc \<rparr> \<rparr>)
           exampleDataset)
     = filter (\<lambda>keyword. getProp ''searchVolume'' keyword = JNumber 12000) exampleDataset"
proof -
  have c: "sortConfig (initialState\<lparr> sortConfig := Some \<lparr> key = ''searchVolume'', direction = Asc \<rparr> \<rparr>)
           = Some \<lparr> key = ''searchVolume'', direction = Asc \<rparr>"
    by simp
  from sort_permutation_idempotent_stable
    [of "initialState\<lparr> sortConfig := Some \<lparr> key = ''searchVolume'', direction = Asc \<rparr> \<rparr>"
      exampleDataset]
  have "filter (\<lambda>keyword. getProp (key \<lparr> key = ''searchVolume'', direction = Asc \<rparr>) keyword = JNumber 12000)
        (sortStage (initialState\<lparr> sortConfig := Some \<lparr> key = ''searchVolume'', direction = Asc \<rparr> \<rparr>)
           exampleDataset)
     = filter (\<lambda>keyword. getProp (key \<lparr> key = ''searchVolume'', direction = Asc \<rparr>) keyword = JNumber 12000)
         exampleDataset"
    using c by blast
  then show ?thesis by (simp add: sort_example)
qed

subsection \<open>Overlapping dataset loads\<close>

lemma load_fields_effect:
  "keywords_list (filterAndSortEffect s) = keywords_list s"
  "pendingLoads (filterAndSortEffect s) = pendingLoads s"
  by (simp_all add: filterAndSortEffect_def)

lemma load_fields_update:
  assumes "\<not> isLoadEvent e"
  shows "keywords_list (update e s) = keywords_list s"
    and "pendingLoads (update e s) = pendingLoads s"
  using assms
  by (cases e; simp add: resetFilters_def handleSort_def handleScroll_def loadMoreTimeout_def
      split: option.split)+

lemma load_fields_step:
  assumes "\<not> isLoadEvent e"
  shows "keywords_list (step e s) = keywords_list s"
    and "pendingLoads (step e s) = pendingLoads s"
  using assms by (simp_all add: step_def load_fields_effect load_fields_update)

lemma load_fields_run:
  assumes "list_all (\<lambda>e. \<not> isLoadEvent e) es"
  shows "keywords_list (run es s) = keywords_list s \<and> pendingLoads (run es s) = pendingLoads s"
  using assms
  by (induction es arbitrary: s) (simp_all add: run_Nil run_Cons load_fields_step)

lemma step_SelectCategory:
  "categoryId \<noteq> [] \<Longrightarrow>
   keywords_list (step (SelectCategory categoryId) s) = keywords_list s
   \<and> pendingLoads (step (SelectCategory categoryId) s) = pendingLoads s @ [categoryId]"
  by (simp add: step_def selectCategory_def)

lemma step_LoadTimeout:
  "pendingLoads s = categoryId # rest \<Longrightarrow>
   keywords_list (step (LoadTimeout g) s) = g categoryId
   \<and> pendingLoads (step (LoadTimeout g) s) = rest"
  by (simp add: step_def loadTimeout_def load_fields_effect Let_def)

text \<open>
  C9, as the code has it. Load A is in flight and load B starts after it. When A's timer
  fires, A's records are installed as the dataset, although B has already started; they
  are not discarded. Every load timer has the same delay, so A's timer fires before B's:
  when B's timer fires, B's records replace A's, and after both timers the dataset is
  B's result, whatever other events happen in between.
\<close>

theorem later_load_wins:
  assumes inflight: "pendingLoads s = [a]"
    and b: "b \<noteq> []"
    and others: "list_all (\<lambda>e. \<not> isLoadEvent e) es1" "list_all (\<lambda>e. \<not> isLoadEvent e) es2"
      "list_all (\<lambda>e. \<not> isLoadEvent e) es3" "list_all (\<lambda>e. \<not> isLoadEvent e) es4"
  shows "keywords_list (run (es1 @ [SelectCategory b] @ es2 @ [LoadTimeout gA]) s) = gA a
    \<and> keywords_list (run (es1 @ [SelectCategory b] @ es2 @ [LoadTimeout gA] @ es3
                           @ [LoadTimeout gB] @ es4) s) = gB b
    \<and> pendingLoads (run (es1 @ [SelectCategory b] @ es2 @ [LoadTimeout gA] @ es3
                           @ [LoadTimeout gB] @ es4) s) = []"
proof -
  define s1 where "s1 = run es1 s"
  define s2 where "s2 = step (SelectCategory b) s1"
  define s3 where "s3 = run es2 s2"
  define s4 where "s4 = step (LoadTimeout gA) s3"
  define s5 where "s5 = run es3 s4"
  define s6 where "s6 = step (LoadTimeout gB) s5"
  define s7 where "s7 = run es4 s6"
  have p1: "pendingLoads s1 = [a]"
    using load_fields_run [OF others(1), of s] inflight by (simp add: s1_def)
  have p2: "pendingLoads s2 = [a, b]"
    using step_SelectCategory [OF b, of s1] p1 by (simp add: s2_def)
  have p3: "pendingLoads s3 = [a, b]"
    using load_fields_run [OF others(2), of s2] p2 by (simp add: s3_def)
  have k4: "keywords_list s4 = gA a" and p4: "pendingLoads s4 = [b]"
    using step_LoadTimeout [OF p3, of gA] by (simp_all add: s4_def)
  have p5: "pendingLoads s5 = [b]"
    using load_fields_run [OF others(3), of s4] p4 by (simp add: s5_def)
  have k6: "keywords_list s6 = gB b" and p6: "pendingLoads s6 = []"
    using step_LoadTimeout [OF p5, of gB] by (simp_all add: s6_def)
  have k7: "keywords_list s7 = gB b" and p7: "pendingLoads s7 = []"
    using load_fields_run [OF others(4), of s6] k6 p6 by (simp_all add: s7_def)
  have r4: "run (es1 @ [SelectCategory b] @ es2 @ [LoadTimeout gA]) s = s4"
    by (simp add: run_append run_Cons run_Nil s1_def s2_def s3_def s4_def)
  have r7: "run (es1 @ [SelectCategory b] @ es2 @ [LoadTimeout gA] @ es3 @ [LoadTimeout gB] @ es4) s = s7"
    by (simp add: run_append run_Cons run_Nil s1_def s2_def s3_def s4_def s5_def s6_def s7_def)
  show ?thesis
    by (simp only: r4 r7 k4 k7 p7)
qed

theorem later_load_wins_witness:
  "keywords_list (run ([SetSearchTerm ''shoe''] @ [SelectCategory ''2''] @ [] @
       [LoadTimeout (exampleBatch 2)] @ [Sort ''name''] @ [LoadTimeout (exampleBatch 3)] @ [])
       initialState) = exampleBatch 3 ''2''
   \<and> keywords_list (run ([SetSearchTerm ''shoe''] @ [SelectCategory ''2''] @ [] @
       [LoadTimeout (exampleBatch 2)]) initialState) = exampleBatch 2 ''1''"
proof -
  have "pendingLoads initialState = [''1'']"
    by (simp add: initialState_def)
  moreover have "''2'' \<noteq> []" by simp
  moreover have "list_all (\<lambda>e. \<not> isLoadEvent e) [SetSearchTerm ''shoe'']"
    "list_all (\<lambda>e. \<not> isLoadEvent e) []" "list_all (\<lambda>e. \<not> isLoadEvent e) [Sort ''name'']"
    by simp_all
  ultimately show ?thesis
    using later_load_wins [of initialState "''1''" "''2''" "[SetSearchTerm ''shoe'']" "[]"
        "[Sort ''name'']" "[]" "exampleBatch 2" "exampleBatch 3"]
    by simp
qed

text \<open>
  The initial load of category 1 is in flight when category 2 is selected. The timer of
  the superseded load fires: the dataset changes from empty to its records and the
  loading state ends, while the load of category 2 is still pending.
\<close>

theorem superseded_load_installed_counterexample:
  "pendingLoads (run [SelectCategory ''2''] initialState) = [''1'', ''2'']
   \<and> keywords_list (run [SelectCategory ''2''] initialState) = []
   \<and> keywords_list (run [SelectCategory ''2'', LoadTimeout (\<lambda>categoryId. exampleDataset)] initialState)
       = exampleDataset
   \<and> \<not> isLoading (run [SelectCategory ''2'', LoadTimeout (\<lambda>categoryId. exampleDataset)] initialState)
   \<and> pendingLoads (run [SelectCategory ''2'', LoadTimeout (\<lambda>categoryId. exampleDataset)] initialState)
       = [''2'']
   \<and> keywords_list (run [SelectCategory ''2'', LoadTimeout (\<lambda>categoryId. exampleDataset)] initialState)
       \<noteq> keywords_list (run [SelectCategory ''2''] initialState)"
proof -
  have s: "run [SelectCategory ''2''] initialState
           = initialState\<lparr> isLoading := True, pendingLoads := [''1'', ''2''] \<rparr>"
    by (simp add: run_def step_def selectCategory_def initialState_def)
  have l: "run [SelectCategory ''2'', LoadTimeout (\<lambda>categoryId. exampleDataset)] initialState
           = filterAndSortEffect
               (initialState\<lparr> isLoading := False, pendingLoads := [''2''],
                   keywords_list := exampleDataset, filteredKeywords := exampleDataset \<rparr>)"
    by (simp add: run_def step_def selectCategory_def loadTimeout_def initialState_def Let_def)
  have "exampleDataset \<noteq> []" by (simp add: exampleDataset_def)
  then show ?thesis
    unfolding s l by (simp add: filterAndSortEffect_def) (simp add: initialState_def)
qed

end
